theory Spec2Isabelle
  imports Main
begin

section \<open>The API service of the BankIM management portal\<close>

text \<open>
  A model of the content part of \<open>ApiService\<close>: the module constants and the
  placeholder test, the content cache with \<open>requestWithCache\<close>, \<open>getContentByScreen\<close>
  with its development payload, and \<open>transformApiToContentPages\<close>, which merges the
  per-language responses into the list of pages. The cache is passed in and returned;
  \<open>fetch\<close> is a function from the request to what the network does with it; the two
  readings of \<open>Date.now()\<close>, before and after the network call, are arguments; what is
  written to the console and the requests that are sent are part of the outcome.
\<close>

section \<open>Strings\<close>

text \<open>
  JavaScript strings are modelled as \<open>string\<close>, the list of the bytes of their UTF-8
  encoding. Every pattern the service searches for (\<open>includes\<close>, \<open>startsWith\<close>, the two
  regular expressions) is ASCII, and a UTF-8 encoded non-ASCII character never holds an
  ASCII byte, so the searches find on the bytes what they find on the code units.
  Numbers are integers: times and time spans are milliseconds as \<open>int\<close>, what
  \<open>parseInt\<close> reads from a run of digits is a \<open>nat\<close>. A JavaScript number is a double:
  it is the integer it stands for up to \<open>2^53\<close>, and from there on \<open>parseInt\<close> and the
  arithmetic round, and a template literal prints an exponent from \<open>10^21\<close> on. The
  functions below compute with the integers themselves; they are the program's values on
  the safe integers, the numbers below \<open>2^53\<close>, and the properties that depend on a
  parsed number are stated for those.
\<close>

definition safe_integer :: "nat \<Rightarrow> bool" where
  \<comment> \<open>\<open>Number.isSafeInteger\<close> on a non-negative integer: below \<open>2^53\<close>\<close>
  "safe_integer n = (n < 9007199254740992)"

definition startsWith :: "string \<Rightarrow> string \<Rightarrow> bool" where
  "startsWith s p = (take (length p) s = p)"

fun string_includes :: "string \<Rightarrow> string \<Rightarrow> bool" where
  "string_includes [] p = (p = [])"
| "string_includes (c # cs) p = (startsWith (c # cs) p \<or> string_includes cs p)"

definition is_digit :: "char \<Rightarrow> bool" where
  "is_digit c = (48 \<le> (of_char c :: nat) \<and> (of_char c :: nat) \<le> 57)"

definition digit_value :: "char \<Rightarrow> nat" where
  "digit_value c = of_char c - 48"

definition parseInt_digits :: "string \<Rightarrow> nat" where
  \<comment> \<open>the integer a non-empty run of decimal digits stands for: the value of \<open>parseInt\<close>
      when it is a safe integer\<close>
  "parseInt_digits ds = foldl (\<lambda>a c. 10 * a + digit_value c) 0 ds"

definition truthy :: "string option \<Rightarrow> bool" where
  \<comment> \<open>a value of type \<open>string | null | undefined\<close> in a boolean position\<close>
  "truthy v = (case v of None \<Rightarrow> False | Some s \<Rightarrow> s \<noteq> [])"

definition or_else :: "string option \<Rightarrow> string option \<Rightarrow> string option" where
  \<comment> \<open>\<open>a || b\<close> on such values\<close>
  "or_else a b = (if truthy a then a else b)"

section \<open>Module constants\<close>

text \<open>
  \<open>API_BASE_URL\<close>, \<open>CONTENT_API_URL\<close>, \<open>USE_REAL_CONTENT_DATA\<close> and \<open>CONTENT_CACHE_TTL\<close>
  are read once from the build environment; they are the fields of a \<open>config\<close>.
\<close>

record config =
  API_BASE_URL :: string
  CONTENT_API_URL :: string
  USE_REAL_CONTENT_DATA :: bool
  CONTENT_CACHE_TTL :: int

definition isPlaceholderUrl :: "config \<Rightarrow> string \<Rightarrow> bool" where
  "isPlaceholderUrl cfg url =
     (if USE_REAL_CONTENT_DATA cfg then False
      else string_includes url ''your-api-domain.railway.app''
         \<or> string_includes url ''your-backend-domain.railway.app''
         \<or> string_includes url ''localhost:3001'')"

section \<open>Results, thrown values, the console\<close>

record 'a ApiResponse =
  success :: bool
  data :: "'a option"
  error :: "string option"
  message :: "string option"

datatype thrown = Error string | NotAnError

definition error_message :: "thrown \<Rightarrow> string" where
  \<comment> \<open>\<open>error instanceof Error ? error.message : 'Unknown error occurred'\<close>\<close>
  "error_message t = (case t of Error m \<Rightarrow> m | NotAnError \<Rightarrow> ''Unknown error occurred'')"

definition succeed :: "'a option \<Rightarrow> 'a ApiResponse" where
  \<comment> \<open>the object literal \<open>{ success: true, data: d }\<close>\<close>
  "succeed d = \<lparr>success = True, data = d, error = None, message = None\<rparr>"

definition fail :: "string \<Rightarrow> 'a ApiResponse" where
  \<comment> \<open>the object literal \<open>{ success: false, error: m }\<close>\<close>
  "fail m = \<lparr>success = False, data = None, error = Some m, message = None\<rparr>"

datatype console_line =
    Log_cache_hit string
  | Log_cached string int
  | Warn_stale_cache string
  | Error_cached_request_failed thrown
  | Log_placeholder_mock

section \<open>Request options and the fingerprint\<close>

text \<open>
  A \<open>RequestInit\<close> object is the list of its own properties in insertion order, which is
  the order \<open>JSON.stringify\<close> writes them in. The properties modelled are the three the
  service sets or reads: \<open>method\<close> and \<open>body\<close> (strings, as every call site of this file
  passes them) and \<open>headers\<close> (a plain object of strings).
\<close>

datatype init_property =
    Method string
  | Headers "(string \<times> string) list"
  | Body string

type_synonym RequestInit = "init_property list"

definition hex_digit :: "nat \<Rightarrow> char" where
  "hex_digit n = (if n < 10 then char_of (48 + n) else char_of (87 + n))"

definition json_escape :: "char \<Rightarrow> string" where
  \<comment> \<open>QuoteJSONString, one code unit\<close>
  "json_escape c =
     (if c = CHR 0x22 then [CHR 0x5C, CHR 0x22]
      else if c = CHR 0x5C then [CHR 0x5C, CHR 0x5C]
      else if c = CHR 0x08 then [CHR 0x5C, CHR ''b'']
      else if c = CHR 0x0C then [CHR 0x5C, CHR ''f'']
      else if c = CHR 0x0A then [CHR 0x5C, CHR ''n'']
      else if c = CHR 0x0D then [CHR 0x5C, CHR ''r'']
      else if c = CHR 0x09 then [CHR 0x5C, CHR ''t'']
      else if (of_char c :: nat) < 32
        then [CHR 0x5C, CHR ''u'', CHR ''0'', CHR ''0'',
              hex_digit ((of_char c :: nat) div 16), hex_digit ((of_char c :: nat) mod 16)]
      else [c])"

definition json_quote :: "string \<Rightarrow> string" where
  "json_quote s = CHR 0x22 # concat (map json_escape s) @ [CHR 0x22]"

fun json_members :: "string list \<Rightarrow> string" where
  \<comment> \<open>the members of an object, separated by commas\<close>
  "json_members [] = []"
| "json_members [m] = m"
| "json_members (m # ms) = m @ CHR '','' # json_members ms"

definition json_object :: "string list \<Rightarrow> string" where
  "json_object ms = CHR ''{'' # json_members ms @ [CHR ''}'']"

definition json_pair :: "string \<times> string \<Rightarrow> string" where
  "json_pair kv = json_quote (fst kv) @ CHR '':'' # json_quote (snd kv)"

fun json_property :: "init_property \<Rightarrow> string" where
  "json_property (Method m) = json_quote ''method'' @ CHR '':'' # json_quote m"
| "json_property (Headers hs) =
     json_quote ''headers'' @ CHR '':'' # json_object (map json_pair hs)"
| "json_property (Body b) = json_quote ''body'' @ CHR '':'' # json_quote b"

definition JSON_stringify :: "RequestInit \<Rightarrow> string" where
  "JSON_stringify options = json_object (map json_property options)"

definition fingerprint :: "string \<Rightarrow> RequestInit \<Rightarrow> string" where
  \<comment> \<open>\<open>const cacheKey = `${endpoint}${JSON.stringify(options)}`\<close>\<close>
  "fingerprint endpoint options = endpoint @ JSON_stringify options"

fun options_headers :: "RequestInit \<Rightarrow> (string \<times> string) list" where
  \<comment> \<open>\<open>options.headers\<close>, the empty object when the property is absent\<close>
  "options_headers [] = []"
| "options_headers (Headers hs # ps) = hs"
| "options_headers (p # ps) = options_headers ps"

fun options_method :: "RequestInit \<Rightarrow> string option" where
  \<comment> \<open>\<open>options.method\<close>\<close>
  "options_method [] = None"
| "options_method (Method m # ps) = Some m"
| "options_method (p # ps) = options_method ps"

fun options_body :: "RequestInit \<Rightarrow> string option" where
  \<comment> \<open>\<open>options.body\<close>\<close>
  "options_body [] = None"
| "options_body (Body b # ps) = Some b"
| "options_body (p # ps) = options_body ps"

fun object_set :: "'k \<Rightarrow> 'v \<Rightarrow> ('k \<times> 'v) list \<Rightarrow> ('k \<times> 'v) list" where
  \<comment> \<open>\<open>Map.set\<close>: an existing key keeps its place, a new one goes last\<close>
  "object_set k v [] = [(k, v)]"
| "object_set k v (p # ps) = (if fst p = k then (k, v) # ps else p # object_set k v ps)"

definition spread :: "('k \<rightharpoonup> 'v) \<Rightarrow> ('k \<times> 'v) list \<Rightarrow> ('k \<rightharpoonup> 'v)" where
  \<comment> \<open>\<open>{ ...target, ...source }\<close>: the properties of \<open>source\<close> are assigned one after the
      other, each replacing what the name held\<close>
  "spread target source = foldl (\<lambda>obj kv. obj(fst kv \<mapsto> snd kv)) target source"

section \<open>The network\<close>

text \<open>
  What \<open>fetch\<close> is called with: the address, and of the second argument
  \<open>{ ...options, headers }\<close> the method, the body and the headers. \<open>fetch\<close> reads the
  headers by name, so they are a map from names to values and the order in which the
  object would enumerate them is not part of the request.
\<close>

record request =
  url :: string
  request_method :: "string option"
  request_body :: "string option"
  request_headers :: "string \<rightharpoonup> string"

record 'a response =
  status :: nat
  ETag :: "string option"
  Cache_Control :: "string option"
  Bankim_Content_Version :: "string option"
  body_json :: "thrown + 'a ApiResponse option"

datatype 'a fetch_outcome = Rejected thrown | Resolved "'a response"

text \<open>
  \<open>body_json\<close> is what parsing the response's body as JSON gives: the \<open>SyntaxError\<close>
  thrown, or the value. The value is \<open>null\<close> (\<open>None\<close>), the one value whose properties
  cannot be read, or anything else, which is read at the type \<open>ApiResponse<T>\<close> the method
  declares for it, a property it lacks reading as \<open>undefined\<close>. The headers are the
  three that \<open>response.headers.get\<close> is asked for, \<open>None\<close> standing for \<open>null\<close>. A
  response with a null body status has no body (Fetch standard), so \<open>response.json()\<close>
  parses the empty text and rejects. The messages of the two errors are the ones V8
  gives.
\<close>

definition null_body_status :: "nat \<Rightarrow> bool" where
  "null_body_status s = (s = 101 \<or> s = 103 \<or> s = 204 \<or> s = 205 \<or> s = 304)"

definition response_json :: "'a response \<Rightarrow> thrown + 'a ApiResponse option" where
  "response_json r =
     (if null_body_status (status r) then Inl (Error ''Unexpected end of JSON input'')
      else body_json r)"

fun match_max_age :: "string \<Rightarrow> nat option" where
  \<comment> \<open>\<open>cacheControl.match(/max-age=(\d+)/)\<close>, the captured digits read by \<open>parseInt\<close>\<close>
  "match_max_age [] = None"
| "match_max_age (c # cs) =
     (if startsWith (c # cs) ''max-age='' \<and> takeWhile is_digit (drop 8 (c # cs)) \<noteq> []
      then Some (parseInt_digits (takeWhile is_digit (drop 8 (c # cs))))
      else match_max_age cs)"

definition reading_data_of_null :: thrown where
  \<comment> \<open>the \<open>TypeError\<close> that \<open>result.data\<close> throws when \<open>result\<close> is \<open>null\<close>\<close>
  "reading_data_of_null = Error ''Cannot read properties of null (reading 'data')''"

section \<open>The content cache and the cached request\<close>

record 'a cache_entry =
  entry_data :: "'a option"
  etag :: string
  timestamp :: int
  ttl :: int

type_synonym 'a cache = "(string \<times> 'a cache_entry) list"

text \<open>
  What a call leaves behind: the value it resolves to (\<open>None\<close> standing for \<open>null\<close>),
  the store, the lines written to the console and the requests sent.
\<close>

record 'a outcome =
  result :: "'a ApiResponse option"
  cache_after :: "'a cache"
  console :: "console_line list"
  sent :: "request list"

definition on_error :: "'a cache \<Rightarrow> string \<Rightarrow> int \<Rightarrow> request \<Rightarrow> thrown \<Rightarrow> 'a outcome" where
  \<comment> \<open>the \<open>catch\<close> block of \<open>requestWithCache\<close>\<close>
  "on_error cache cacheKey now req t =
     (case map_of cache cacheKey of
        Some cached \<Rightarrow>
          if now - timestamp cached < ttl cached * 2
          then \<lparr>result = Some (succeed (entry_data cached)), cache_after = cache,
                console = [Warn_stale_cache cacheKey], sent = [req]\<rparr>
          else \<lparr>result = Some (fail (error_message t)), cache_after = cache,
                console = [Error_cached_request_failed t], sent = [req]\<rparr>
      | None \<Rightarrow>
          \<lparr>result = Some (fail (error_message t)), cache_after = cache,
           console = [Error_cached_request_failed t], sent = [req]\<rparr>)"

definition conditional_headers :: "'a cache_entry option \<Rightarrow> int \<Rightarrow> (string \<times> string) list" where
  \<comment> \<open>\<open>cacheValid && cached.etag ? { 'If-None-Match': cached.etag } : {}\<close>\<close>
  "conditional_headers cached now =
     (case cached of
        None \<Rightarrow> []
      | Some c \<Rightarrow>
          if now - timestamp c < ttl c \<and> etag c \<noteq> [] then [(''If-None-Match'', etag c)]
          else [])"

definition build_request :: "config \<Rightarrow> 'a cache \<Rightarrow> int \<Rightarrow> string \<Rightarrow> RequestInit \<Rightarrow> request" where
  "build_request cfg cache now endpoint options =
     (let cached = map_of cache (fingerprint endpoint options);
          headers = spread (spread [''Content-Type'' \<mapsto> ''application/json'']
                              (conditional_headers cached now))
                      (options_headers options);
          baseUrl = (if startsWith endpoint ''/api/content'' then CONTENT_API_URL cfg
                     else API_BASE_URL cfg)
      in \<lparr>url = baseUrl @ endpoint, request_method = options_method options,
          request_body = options_body options, request_headers = headers\<rparr>)"

definition parse_ttl :: "int \<Rightarrow> string option \<Rightarrow> int" where
  "parse_ttl dflt cacheControl =
     (case cacheControl of
        None \<Rightarrow> dflt
      | Some cc \<Rightarrow>
          if cc \<noteq> [] \<and> string_includes cc ''max-age=''
          then (case match_max_age cc of Some n \<Rightarrow> int n * 1000 | None \<Rightarrow> dflt)
          else dflt)"

definition requestWithCache ::
  "config \<Rightarrow> (request \<Rightarrow> 'a fetch_outcome) \<Rightarrow> int \<Rightarrow> int \<Rightarrow> 'a cache \<Rightarrow>
   string \<Rightarrow> RequestInit \<Rightarrow> int option \<Rightarrow> 'a outcome" where
  "requestWithCache cfg fetch now now' cache endpoint options customTTL =
     (let cacheKey = fingerprint endpoint options;
          cached = map_of cache cacheKey;
          dflt = (case customTTL of
                    None \<Rightarrow> CONTENT_CACHE_TTL cfg
                  | Some n \<Rightarrow> if n \<noteq> 0 then n else CONTENT_CACHE_TTL cfg);
          req = build_request cfg cache now endpoint options
      in case fetch req of
           Rejected t \<Rightarrow> on_error cache cacheKey now' req t
         | Resolved response \<Rightarrow>
             if status response = 304 \<and> cached \<noteq> None
             then \<lparr>result = Some (succeed (entry_data (the cached))), cache_after = cache,
                   console = [Log_cache_hit cacheKey], sent = [req]\<rparr>
             else (case response_json response of
                     Inl t \<Rightarrow> on_error cache cacheKey now' req t
                   | Inr decoded \<Rightarrow>
                       let parsedTTL = parse_ttl dflt (Cache_Control response) in
                       if truthy (ETag response) \<or> truthy (Bankim_Content_Version response)
                       then (case decoded of
                               None \<Rightarrow> on_error cache cacheKey now' req reading_data_of_null
                             | Some res \<Rightarrow>
                                 \<lparr>result = Some res,
                                  cache_after = object_set cacheKey
                                    \<lparr>entry_data = data res,
                                     etag = (case or_else (ETag response)
                                                    (Bankim_Content_Version response)
                                             of Some v \<Rightarrow> v | None \<Rightarrow> []),
                                     timestamp = now', ttl = parsedTTL\<rparr> cache,
                                  console = [Log_cached cacheKey parsedTTL], sent = [req]\<rparr>)
                       else \<lparr>result = decoded, cache_after = cache, console = [],
                             sent = [req]\<rparr>))"

definition clearContentCache :: "'a cache \<Rightarrow> 'a cache" where
  "clearContentCache cache = []"

record cache_stat =
  key :: string
  age :: int
  hasEtag :: bool

record cache_stats =
  size' :: nat
  entries :: "cache_stat list"

definition getCacheStats :: "'a cache \<Rightarrow> int \<Rightarrow> cache_stats" where
  "getCacheStats cache now =
     \<lparr>size' = length cache,
      entries = map (\<lambda>kv. \<lparr>key = fst kv, age = now - timestamp (snd kv),
                           hasEtag = (etag (snd kv) \<noteq> [])\<rparr>) cache\<rparr>"

inductive reachable :: "config \<Rightarrow> 'a cache \<Rightarrow> bool" for cfg :: config where
  initial: "reachable cfg []"
| request: "reachable cfg cache \<Longrightarrow>
     reachable cfg (cache_after (requestWithCache cfg fetch now now' cache endpoint options customTTL))"
| clear: "reachable cfg cache \<Longrightarrow> reachable cfg (clearContentCache cache)"

section \<open>Content responses\<close>

datatype content_value = Text string | Options "string list"

record content_data =
  item_value :: content_value
  component_type :: string
  category :: string
  language :: string
  item_status :: string

record ContentApiResponse =
  api_status :: string
  screen_location :: string
  language_code :: string
  content_count :: nat
  content :: "(string \<times> content_data) list option"

text \<open>
  \<open>content\<close> is the object's own properties in the order \<open>Object.entries\<close> walks them,
  \<open>None\<close> when the response has no such property. The literals of the development
  payload that are not ASCII are given by their UTF-8 bytes.
\<close>

definition income_source_ru :: string where
  "income_source_ru =
     [CHR 0xD0, CHR 0x9E, CHR 0xD1, CHR 0x81, CHR 0xD0, CHR 0xBD, CHR 0xD0, CHR 0xBE,
      CHR 0xD0, CHR 0xB2, CHR 0xD0, CHR 0xBD, CHR 0xD0, CHR 0xBE, CHR 0xD0, CHR 0xB9,
      CHR 0x20, CHR 0xD0, CHR 0xB8, CHR 0xD1, CHR 0x81, CHR 0xD1, CHR 0x82, CHR 0xD0,
      CHR 0xBE, CHR 0xD1, CHR 0x87, CHR 0xD0, CHR 0xBD, CHR 0xD0, CHR 0xB8, CHR 0xD0,
      CHR 0xBA, CHR 0x20, CHR 0xD0, CHR 0xB4, CHR 0xD0, CHR 0xBE, CHR 0xD1, CHR 0x85,
      CHR 0xD0, CHR 0xBE, CHR 0xD0, CHR 0xB4, CHR 0xD0, CHR 0xB0]"

definition income_source_he :: string where
  "income_source_he =
     [CHR 0xD7, CHR 0x9E, CHR 0xD7, CHR 0xA7, CHR 0xD7, CHR 0x95, CHR 0xD7, CHR 0xA8,
      CHR 0x20, CHR 0xD7, CHR 0x94, CHR 0xD7, CHR 0x9B, CHR 0xD7, CHR 0xA0, CHR 0xD7,
      CHR 0xA1, CHR 0xD7, CHR 0x94, CHR 0x20, CHR 0xD7, CHR 0xA2, CHR 0xD7, CHR 0x99,
      CHR 0xD7, CHR 0xA7, CHR 0xD7, CHR 0xA8, CHR 0xD7, CHR 0x99]"

definition employment_type_ru :: string where
  "employment_type_ru =
     [CHR 0xD0, CHR 0xA2, CHR 0xD0, CHR 0xB8, CHR 0xD0, CHR 0xBF, CHR 0x20, CHR 0xD0,
      CHR 0xB7, CHR 0xD0, CHR 0xB0, CHR 0xD0, CHR 0xBD, CHR 0xD1, CHR 0x8F, CHR 0xD1,
      CHR 0x82, CHR 0xD0, CHR 0xBE, CHR 0xD1, CHR 0x81, CHR 0xD1, CHR 0x82, CHR 0xD0,
      CHR 0xB8]"

definition employment_type_he :: string where
  "employment_type_he =
     [CHR 0xD7, CHR 0xA1, CHR 0xD7, CHR 0x95, CHR 0xD7, CHR 0x92, CHR 0x20, CHR 0xD7,
      CHR 0xAA, CHR 0xD7, CHR 0xA2, CHR 0xD7, CHR 0xA1, CHR 0xD7, CHR 0x95, CHR 0xD7,
      CHR 0xA7, CHR 0xD7, CHR 0x94]"

definition property_type_ru :: string where
  "property_type_ru =
     [CHR 0xD0, CHR 0xA2, CHR 0xD0, CHR 0xB8, CHR 0xD0, CHR 0xBF, CHR 0x20, CHR 0xD0,
      CHR 0xBD, CHR 0xD0, CHR 0xB5, CHR 0xD0, CHR 0xB4, CHR 0xD0, CHR 0xB2, CHR 0xD0,
      CHR 0xB8, CHR 0xD0, CHR 0xB6, CHR 0xD0, CHR 0xB8, CHR 0xD0, CHR 0xBC, CHR 0xD0,
      CHR 0xBE, CHR 0xD1, CHR 0x81, CHR 0xD1, CHR 0x82, CHR 0xD0, CHR 0xB8]"

definition property_type_he :: string where
  "property_type_he =
     [CHR 0xD7, CHR 0xA1, CHR 0xD7, CHR 0x95, CHR 0xD7, CHR 0x92, CHR 0x20, CHR 0xD7,
      CHR 0xA0, CHR 0xD7, CHR 0x9B, CHR 0xD7, CHR 0xA1]"

definition page_title_ru :: string where
  "page_title_ru =
     [CHR 0xD0, CHR 0xA0, CHR 0xD0, CHR 0xB0, CHR 0xD1, CHR 0x81, CHR 0xD1, CHR 0x81,
      CHR 0xD1, CHR 0x87, CHR 0xD0, CHR 0xB8, CHR 0xD1, CHR 0x82, CHR 0xD0, CHR 0xB0,
      CHR 0xD1, CHR 0x82, CHR 0xD1, CHR 0x8C, CHR 0x20, CHR 0xD0, CHR 0x98, CHR 0xD0,
      CHR 0xBF, CHR 0xD0, CHR 0xBE, CHR 0xD1, CHR 0x82, CHR 0xD0, CHR 0xB5, CHR 0xD0,
      CHR 0xBA, CHR 0xD1, CHR 0x83]"

definition page_title_he :: string where
  "page_title_he =
     [CHR 0xD7, CHR 0x97, CHR 0xD7, CHR 0xA9, CHR 0xD7, CHR 0x91, CHR 0x20, CHR 0xD7,
      CHR 0x90, CHR 0xD7, CHR 0xAA, CHR 0x20, CHR 0xD7, CHR 0x94, CHR 0xD7, CHR 0x9E,
      CHR 0xD7, CHR 0xA9, CHR 0xD7, CHR 0x9B, CHR 0xD7, CHR 0xA0, CHR 0xD7, CHR 0xAA,
      CHR 0xD7, CHR 0x90, CHR 0x20, CHR 0xD7, CHR 0xA9, CHR 0xD7, CHR 0x9C, CHR 0xD7,
      CHR 0x9A]"

definition description_ru :: string where
  "description_ru =
     [CHR 0xD0, CHR 0x9A, CHR 0xD1, CHR 0x80, CHR 0xD0, CHR 0xB5, CHR 0xD0, CHR 0xB4,
      CHR 0xD0, CHR 0xB8, CHR 0xD1, CHR 0x82, CHR 0xD0, CHR 0xBD, CHR 0xD0, CHR 0xB0,
      CHR 0xD1, CHR 0x8F, CHR 0x20, CHR 0xD0, CHR 0xB8, CHR 0xD1, CHR 0x81, CHR 0xD1,
      CHR 0x82, CHR 0xD0, CHR 0xBE, CHR 0xD1, CHR 0x80, CHR 0xD0, CHR 0xB8, CHR 0xD1,
      CHR 0x8F]"

definition description_he :: string where
  "description_he =
     [CHR 0xD7, CHR 0x94, CHR 0xD7, CHR 0x99, CHR 0xD7, CHR 0xA1, CHR 0xD7, CHR 0x98,
      CHR 0xD7, CHR 0x95, CHR 0xD7, CHR 0xA8, CHR 0xD7, CHR 0x99, CHR 0xD7, CHR 0x99,
      CHR 0xD7, CHR 0xAA, CHR 0x20, CHR 0xD7, CHR 0x90, CHR 0xD7, CHR 0xA9, CHR 0xD7,
      CHR 0xA8, CHR 0xD7, CHR 0x90, CHR 0xD7, CHR 0x99]"

definition document_type_ru :: string where
  "document_type_ru =
     [CHR 0xD0, CHR 0xA2, CHR 0xD0, CHR 0xB8, CHR 0xD0, CHR 0xBF, CHR 0x20, CHR 0xD0,
      CHR 0xB4, CHR 0xD0, CHR 0xBE, CHR 0xD0, CHR 0xBA, CHR 0xD1, CHR 0x83, CHR 0xD0,
      CHR 0xBC, CHR 0xD0, CHR 0xB5, CHR 0xD0, CHR 0xBD, CHR 0xD1, CHR 0x82, CHR 0xD0,
      CHR 0xB0]"

definition document_type_he :: string where
  "document_type_he =
     [CHR 0xD7, CHR 0xA1, CHR 0xD7, CHR 0x95, CHR 0xD7, CHR 0x92, CHR 0x20, CHR 0xD7,
      CHR 0x9E, CHR 0xD7, CHR 0xA1, CHR 0xD7, CHR 0x9E, CHR 0xD7, CHR 0x9A]"

definition family_status_ru :: string where
  "family_status_ru =
     [CHR 0xD0, CHR 0xA1, CHR 0xD0, CHR 0xB5, CHR 0xD0, CHR 0xBC, CHR 0xD0, CHR 0xB5,
      CHR 0xD0, CHR 0xB9, CHR 0xD0, CHR 0xBD, CHR 0xD0, CHR 0xBE, CHR 0xD0, CHR 0xB5,
      CHR 0x20, CHR 0xD0, CHR 0xBF, CHR 0xD0, CHR 0xBE, CHR 0xD0, CHR 0xBB, CHR 0xD0,
      CHR 0xBE, CHR 0xD0, CHR 0xB6, CHR 0xD0, CHR 0xB5, CHR 0xD0, CHR 0xBD, CHR 0xD0,
      CHR 0xB8, CHR 0xD0, CHR 0xB5]"

definition family_status_he :: string where
  "family_status_he =
     [CHR 0xD7, CHR 0x9E, CHR 0xD7, CHR 0xA6, CHR 0xD7, CHR 0x91, CHR 0x20, CHR 0xD7,
      CHR 0x9E, CHR 0xD7, CHR 0xA9, CHR 0xD7, CHR 0xA4, CHR 0xD7, CHR 0x97, CHR 0xD7,
      CHR 0xAA, CHR 0xD7, CHR 0x99]"

definition by_language :: "string \<Rightarrow> string \<Rightarrow> string \<Rightarrow> string \<Rightarrow> string" where
  \<comment> \<open>\<open>languageCode === 'ru' ? ru : languageCode === 'he' ? he : en\<close>\<close>
  "by_language languageCode ru he en =
     (if languageCode = ''ru'' then ru else if languageCode = ''he'' then he else en)"

definition mockResponse :: "string \<Rightarrow> string \<Rightarrow> ContentApiResponse" where
  "mockResponse screenLocation languageCode =
     \<lparr>api_status = ''success'', screen_location = screenLocation,
      language_code = languageCode, content_count = 7,
      content = Some [
        (''app.main.action.1.dropdown.income_source'',
         \<lparr>item_value = Text (by_language languageCode income_source_ru income_source_he ''Primary Income Source''),
          component_type = ''dropdown'', category = ''dropdowns'', language = languageCode,
          item_status = ''approved''\<rparr>),
        (''app.main.action.2.dropdown.employment_type'',
         \<lparr>item_value = Text (by_language languageCode employment_type_ru employment_type_he ''Employment Type''),
          component_type = ''dropdown'', category = ''dropdowns'', language = languageCode,
          item_status = ''approved''\<rparr>),
        (''app.main.action.3.dropdown.property_type'',
         \<lparr>item_value = Text (by_language languageCode property_type_ru property_type_he ''Property Type''),
          component_type = ''dropdown'', category = ''dropdowns'', language = languageCode,
          item_status = ''approved''\<rparr>),
        (''app.main.action.4.text.page_title'',
         \<lparr>item_value = Text (by_language languageCode page_title_ru page_title_he ''Calculate Mortgage''),
          component_type = ''text'', category = ''headers'', language = languageCode,
          item_status = ''approved''\<rparr>),
        (''app.main.action.5.text.description'',
         \<lparr>item_value = Text (by_language languageCode description_ru description_he ''Credit History''),
          component_type = ''text'', category = ''headers'', language = languageCode,
          item_status = ''approved''\<rparr>),
        (''app.main.action.6.text.document_type'',
         \<lparr>item_value = Text (by_language languageCode document_type_ru document_type_he ''Document Type''),
          component_type = ''text'', category = ''labels'', language = languageCode,
          item_status = ''approved''\<rparr>),
        (''app.main.action.7.link.family_status'',
         \<lparr>item_value = Text (by_language languageCode family_status_ru family_status_he ''Marital Status''),
          component_type = ''link'', category = ''navigation'', language = languageCode,
          item_status = ''approved''\<rparr>)]\<rparr>"

section \<open>The facade: content by screen\<close>

definition getContentByScreen ::
  "config \<Rightarrow> (request \<Rightarrow> ContentApiResponse fetch_outcome) \<Rightarrow> int \<Rightarrow> int \<Rightarrow>
   ContentApiResponse cache \<Rightarrow> string \<Rightarrow> string \<Rightarrow> ContentApiResponse outcome" where
  "getContentByScreen cfg fetch now now' cache screenLocation languageCode =
     (if isPlaceholderUrl cfg (API_BASE_URL cfg)
      then \<lparr>result = Some (succeed (Some (mockResponse screenLocation languageCode))),
            cache_after = cache, console = [Log_placeholder_mock], sent = []\<rparr>
      else requestWithCache cfg fetch now now' cache
             (''/api/content/'' @ screenLocation @ ''/'' @ languageCode) [] None)"

section \<open>The content aggregator\<close>

text \<open>
  A page under construction is a \<open>Partial<ContentPage>\<close>: the five properties that
  \<open>transformApiToContentPages\<close> assigns after creating the object are optional, \<open>None\<close>
  standing for \<open>undefined\<close>. Dates are kept as the strings they are built from.
\<close>

record ContentPage =
  page_id :: string
  pageNumber :: nat
  actionCount :: nat
  page_category :: string
  page_status :: string
  createdAt :: string
  lastModified :: string
  createdBy :: string
  modifiedBy :: string
  page_url :: string
  titleRu :: "string option"
  titleHe :: "string option"
  titleEn :: "string option"
  title :: "string option"
  contentType :: "string option"

definition digit_char :: "nat \<Rightarrow> char" where
  "digit_char d = char_of (48 + d)"

fun string_of_nat :: "nat \<Rightarrow> string" where
  \<comment> \<open>a non-negative integer below \<open>10^21\<close> in a template literal: its decimal digits\<close>
  "string_of_nat n =
     (if n < 10 then [digit_char n] else string_of_nat (n div 10) @ [digit_char (n mod 10)])"

declare string_of_nat.simps [simp del]

fun match_action :: "string \<Rightarrow> nat option" where
  \<comment> \<open>\<open>contentKey.match(/app\.main\.action\.(\d+)\./)\<close>, the captured digits read by \<open>parseInt\<close>\<close>
  "match_action [] = None"
| "match_action (c # cs) =
     (if startsWith (c # cs) ''app.main.action.''
         \<and> takeWhile is_digit (drop 16 (c # cs)) \<noteq> []
         \<and> startsWith (dropWhile is_digit (drop 16 (c # cs))) ''.''
      then Some (parseInt_digits (takeWhile is_digit (drop 16 (c # cs))))
      else match_action cs)"

definition action_id :: "nat \<Rightarrow> string" where
  \<comment> \<open>\<open>`action-${actionNumber}`\<close>\<close>
  "action_id actionNumber = ''action-'' @ string_of_nat actionNumber"

definition new_page :: "nat \<Rightarrow> content_data \<Rightarrow> ContentPage" where
  "new_page actionNumber contentData =
     \<lparr>page_id = action_id actionNumber, pageNumber = actionNumber, actionCount = 1,
      page_category = ''main'',
      page_status = (if item_status contentData = ''approved'' then ''published'' else ''draft''),
      createdAt = ''2024-12-01'', lastModified = ''2024-12-15'',
      createdBy = ''content-manager'', modifiedBy = ''content-manager'',
      page_url = ''/dropdown-action-'' @ string_of_nat actionNumber,
      titleRu = None, titleHe = None, titleEn = None, title = None, contentType = None\<rparr>"

definition first_or_self :: "content_value \<Rightarrow> string option" where
  \<comment> \<open>\<open>Array.isArray(v) ? v[0] : v\<close>\<close>
  "first_or_self v =
     (case v of Text s \<Rightarrow> Some s | Options [] \<Rightarrow> None | Options (x # xs) \<Rightarrow> Some x)"

definition set_titles :: "string \<Rightarrow> content_data \<Rightarrow> ContentPage \<Rightarrow> ContentPage" where
  "set_titles languageCode contentData page =
     (if languageCode = ''ru''
      then page\<lparr>titleRu := first_or_self (item_value contentData),
                title := first_or_self (item_value contentData)\<rparr>
      else if languageCode = ''he''
      then page\<lparr>titleHe := first_or_self (item_value contentData)\<rparr>
      else if languageCode = ''en''
      then page\<lparr>titleEn := first_or_self (item_value contentData)\<rparr>
      else page)"

definition set_content_type :: "content_data \<Rightarrow> ContentPage \<Rightarrow> ContentPage" where
  "set_content_type contentData page =
     (if component_type contentData = ''dropdown''
      then (case item_value contentData of
              Options xs \<Rightarrow>
                page\<lparr>contentType := Some ''dropdown'',
                     actionCount := max (if actionCount page = 0 then 1 else actionCount page)
                                        (length xs)\<rparr>
            | Text s \<Rightarrow> page\<lparr>contentType := Some ''dropdown''\<rparr>)
      else if component_type contentData = ''text'' then page\<lparr>contentType := Some ''text''\<rparr>
      else if component_type contentData = ''link'' then page\<lparr>contentType := Some ''link''\<rparr>
      else page\<lparr>contentType := Some ''mixed''\<rparr>)"

type_synonym content_map = "(string \<times> ContentPage) list"

definition process_entry ::
  "string \<Rightarrow> string \<times> content_data \<Rightarrow> content_map \<Rightarrow> content_map" where
  \<comment> \<open>the body of the inner \<open>forEach\<close>; the page object is updated where it sits in the map\<close>
  "process_entry languageCode kv contentMap =
     (case match_action (fst kv) of
        None \<Rightarrow> contentMap
      | Some actionNumber \<Rightarrow>
          (let actionId = action_id actionNumber;
               page = (case map_of contentMap actionId of
                         None \<Rightarrow> new_page actionNumber (snd kv)
                       | Some p \<Rightarrow> p)
           in object_set actionId
                (set_content_type (snd kv) (set_titles languageCode (snd kv) page))
                contentMap))"

definition process_response :: "ContentApiResponse \<Rightarrow> content_map \<Rightarrow> content_map" where
  "process_response response contentMap =
     (case content response of
        None \<Rightarrow> contentMap
      | Some props \<Rightarrow>
          foldl (\<lambda>m kv. process_entry (language_code response) kv m) contentMap props)"

definition finish_page :: "ContentPage \<Rightarrow> ContentPage" where
  \<comment> \<open>the object built in \<open>.map\<close>\<close>
  "finish_page page =
     page\<lparr>title := or_else (title page)
                      (or_else (titleRu page) (or_else (titleEn page) (Some ''Untitled''))),
          actionCount := (if actionCount page = 0 then 1 else actionCount page)\<rparr>"

definition transformApiToContentPages :: "ContentApiResponse list \<Rightarrow> ContentPage list" where
  "transformApiToContentPages apiResponses =
     sort_key pageNumber
       (map finish_page
          (filter (\<lambda>page. truthy (title page))
             (map snd (foldl (\<lambda>m response. process_response response m) [] apiResponses))))"




section \<open>Notions the properties are stated with\<close>






definition validated :: "'a cache \<Rightarrow> bool" where
  "validated cache = (\<forall>kv \<in> set cache. etag (snd kv) \<noteq> [])"

section \<open>Example inputs\<close>

definition example_config :: config where
  "example_config =
     \<lparr>API_BASE_URL = ''https://api.bankim.example'',
      CONTENT_API_URL = ''https://content.bankim.example'',
      USE_REAL_CONTENT_DATA = False, CONTENT_CACHE_TTL = 300000\<rparr>"

definition example_endpoint :: string where
  "example_endpoint = ''/api/content/main_page/ru''"

definition example_entry :: "nat cache_entry" where
  "example_entry = \<lparr>entry_data = Some 7, etag = ''v1'', timestamp = 0, ttl = 1000\<rparr>"

definition example_cache :: "nat cache" where
  "example_cache = [(''/api/content/main_page/ru{}'', example_entry)]"

definition offline :: "request \<Rightarrow> nat fetch_outcome" where
  "offline req = Rejected (Error ''Failed to fetch'')"

definition unchanged_server :: "request \<Rightarrow> nat fetch_outcome" where
  "unchanged_server req =
     Resolved \<lparr>status = 304, ETag = Some ''v1'', Cache_Control = None,
               Bankim_Content_Version = None, body_json = Inl NotAnError\<rparr>"

definition updated_response :: "nat response" where
  "updated_response =
     \<lparr>status = 200, ETag = Some ''v2'', Cache_Control = Some ''public, max-age=60'',
      Bankim_Content_Version = Some ''2024.12'',
      body_json = Inr (Some \<lparr>success = True, data = Some 9, error = None, message = None\<rparr>)\<rparr>"

definition directed_response :: "string option \<Rightarrow> nat response" where
  \<comment> \<open>the same response with another \<open>Cache-Control\<close>, and no \<open>ETag\<close>\<close>
  "directed_response cc = updated_response\<lparr>ETag := None, Cache_Control := cc\<rparr>"

definition null_response :: "nat response" where
  \<comment> \<open>a body that is the JSON text \<open>null\<close>\<close>
  "null_response =
     \<lparr>status = 200, ETag = Some ''v2'', Cache_Control = None, Bankim_Content_Version = None,
      body_json = Inr None\<rparr>"


definition updated_server :: "request \<Rightarrow> nat fetch_outcome" where
  "updated_server req = Resolved updated_response"

definition garbled_response :: "nat response" where
  "garbled_response =
     \<lparr>status = 200, ETag = Some ''v2'', Cache_Control = None, Bankim_Content_Version = None,
      body_json = Inl (Error ''Unexpected token < in JSON at position 0'')\<rparr>"

definition garbled_server :: "request \<Rightarrow> nat fetch_outcome" where
  "garbled_server req = Resolved garbled_response"

section \<open>What the responses supply\<close>

definition items :: "ContentApiResponse list \<Rightarrow> (string \<times> string \<times> content_data) list" where
  \<comment> \<open>every key/value pair of every response, in the order they are processed, with the
      language of the response it came in\<close>
  "items rs =
     concat (map (\<lambda>r. case content r of
                         None \<Rightarrow> []
                       | Some props \<Rightarrow> map (\<lambda>kv. (language_code r, kv)) props) rs)"

definition safe_numbers :: "ContentApiResponse list \<Rightarrow> bool" where
  \<comment> \<open>every sequence number the keys carry is a safe integer\<close>
  "safe_numbers rs =
     (\<forall>it \<in> set (items rs).
        case match_action (fst (snd it)) of None \<Rightarrow> True | Some n \<Rightarrow> safe_integer n)"

definition supplied ::
  "(string \<times> string \<times> content_data) list \<Rightarrow> string \<Rightarrow> nat \<Rightarrow> string option list" where
  \<comment> \<open>the titles that responses in language \<open>lang\<close> give for sequence number \<open>n\<close>, in order\<close>
  "supplied its lang n =
     map (\<lambda>it. first_or_self (item_value (snd (snd it))))
       (filter (\<lambda>it. fst it = lang \<and> match_action (fst (snd it)) = Some n) its)"

definition latest :: "string option list \<Rightarrow> string option" where
  "latest ts = (if ts = [] then None else last ts)"

definition build :: "(string \<times> string \<times> content_data) list \<Rightarrow> content_map" where
  "build its = foldl (\<lambda>m it. process_entry (fst it) (snd it) m) [] its"

definition titles_agree ::
  "(string \<times> string \<times> content_data) list \<Rightarrow> nat \<Rightarrow> ContentPage \<Rightarrow> bool" where
  "titles_agree its n p =
     (pageNumber p = n \<and>
      title p = latest (supplied its ''ru'' n) \<and>
      titleRu p = latest (supplied its ''ru'' n) \<and>
      titleHe p = latest (supplied its ''he'' n) \<and>
      titleEn p = latest (supplied its ''en'' n))"

section \<open>Example content\<close>

definition example_item :: "string \<Rightarrow> string \<Rightarrow> content_data" where
  "example_item v ct =
     \<lparr>item_value = Text v, component_type = ct, category = ''headers'', language = ''ru'',
      item_status = ''approved''\<rparr>"

definition example_response :: "string \<Rightarrow> (string \<times> content_data) list \<Rightarrow> ContentApiResponse" where
  "example_response lang props =
     \<lparr>api_status = ''success'', screen_location = ''main_page'', language_code = lang,
      content_count = length props, content = Some props\<rparr>"

definition russian_312 :: ContentApiResponse where
  "russian_312 = example_response ''ru''
     [(''app.main.action.3.text.c'', example_item ''C'' ''text''),
      (''app.main.action.1.dropdown.a'', example_item ''A'' ''dropdown''),
      (''app.main.action.2.link.b'', example_item ''B'' ''link'')]"

definition hebrew_1 :: ContentApiResponse where
  "hebrew_1 = example_response ''he''
     [(''app.main.action.1.dropdown.a'', example_item ''Aleph'' ''dropdown'')]"

definition development_config :: config where
  \<comment> \<open>the constants when the build environment sets none of the variables\<close>
  "development_config =
     \<lparr>API_BASE_URL = ''http://localhost:3001'', CONTENT_API_URL = ''http://localhost:3001'',
      USE_REAL_CONTENT_DATA = False, CONTENT_CACHE_TTL = 300000\<rparr>"

definition mock_keys :: "string list" where
  "mock_keys =
     [''app.main.action.1.dropdown.income_source'',
      ''app.main.action.2.dropdown.employment_type'',
      ''app.main.action.3.dropdown.property_type'',
      ''app.main.action.4.text.page_title'',
      ''app.main.action.5.text.description'',
      ''app.main.action.6.text.document_type'',
      ''app.main.action.7.link.family_status'']"

definition mock_values :: "string \<Rightarrow> string list" where
  "mock_values lang =
     (if lang = ''ru''
      then [income_source_ru, employment_type_ru, property_type_ru, page_title_ru,
            description_ru, document_type_ru, family_status_ru]
      else if lang = ''he''
      then [income_source_he, employment_type_he, property_type_he, page_title_he,
            description_he, document_type_he, family_status_he]
      else [''Primary Income Source'', ''Employment Type'', ''Property Type'',
            ''Calculate Mortgage'', ''Credit History'', ''Document Type'', ''Marital Status''])"

definition no_network :: "request \<Rightarrow> ContentApiResponse fetch_outcome" where
  "no_network req = Rejected (Error ''Failed to fetch'')"




section \<open>Reading a serialised object\<close>

text \<open>
  What follows is used to reason about \<open>JSON_stringify\<close>: the three shapes an escaped
  character takes, and a scanner that follows a text in and out of string literals and
  counts the braces that are open.
\<close>

datatype escape_shape = Plain | Short char | Long nat nat

definition shape :: "char \<Rightarrow> escape_shape" where
  "shape c =
     (if c = CHR 0x22 then Short (CHR 0x22)
      else if c = CHR 0x5C then Short (CHR 0x5C)
      else if c = CHR 0x08 then Short (CHR ''b'')
      else if c = CHR 0x0C then Short (CHR ''f'')
      else if c = CHR 0x0A then Short (CHR ''n'')
      else if c = CHR 0x0D then Short (CHR ''r'')
      else if c = CHR 0x09 then Short (CHR ''t'')
      else if (of_char c :: nat) < 32 then Long ((of_char c :: nat) div 16) ((of_char c :: nat) mod 16)
      else Plain)"

datatype mode = Out | In | Esc

fun scan_step :: "mode \<times> nat \<Rightarrow> char \<Rightarrow> (mode \<times> nat) option" where
  "scan_step (Out, d) c =
     (if c = CHR 0x22 then Some (In, d)
      else if c = CHR ''{'' then Some (Out, Suc d)
      else if c = CHR ''}'' then (if 2 \<le> d then Some (Out, d - 1) else None)
      else if c = CHR '':'' \<or> c = CHR '','' then Some (Out, d)
      else None)"
| "scan_step (In, d) c =
     (if c = CHR 0x22 then Some (Out, d)
      else if c = CHR 0x5C then Some (Esc, d)
      else Some (In, d))"
| "scan_step (Esc, d) c = Some (In, d)"

fun scan :: "mode \<times> nat \<Rightarrow> string \<Rightarrow> (mode \<times> nat) option" where
  "scan s [] = Some s"
| "scan s (c # cs) = (case scan_step s c of None \<Rightarrow> None | Some s' \<Rightarrow> scan s' cs)"

definition members_text :: "RequestInit \<Rightarrow> string" where
  "members_text options = json_members (map json_property options)"

section \<open>Properties of the cached request\<close>

subsection \<open>Objects and maps\<close>

lemma map_of_object_set: "map_of (object_set k v obj) = (map_of obj)(k \<mapsto> v)"
  by (induction obj) (auto simp add: fun_eq_iff)

lemma set_object_set: "set (object_set k v obj) \<subseteq> insert (k, v) (set obj)"
  by (induction obj) auto




subsection \<open>Reading numbers and the \<open>max-age\<close> directive\<close>

lemma parseInt_digits_snoc:
  "parseInt_digits (ds @ [d]) = 10 * parseInt_digits ds + digit_value d"
  by (simp add: parseInt_digits_def)












subsection \<open>The paths through \<open>requestWithCache\<close>\<close>


lemma requestWithCache_rejected:
  assumes "fetch (build_request cfg cache now endpoint options) = Rejected t"
  shows "requestWithCache cfg fetch now now' cache endpoint options customTTL =
         on_error cache (fingerprint endpoint options) now'
           (build_request cfg cache now endpoint options) t"
  using assms by (simp add: requestWithCache_def Let_def)

lemma requestWithCache_undecodable:
  assumes "fetch (build_request cfg cache now endpoint options) = Resolved r"
    and "response_json r = Inl t"
    and "status r \<noteq> 304 \<or> map_of cache (fingerprint endpoint options) = None"
  shows "requestWithCache cfg fetch now now' cache endpoint options customTTL =
         on_error cache (fingerprint endpoint options) now'
           (build_request cfg cache now endpoint options) t"
  using assms by (auto simp add: requestWithCache_def Let_def)


subsection \<open>Evaluating the examples\<close>

lemma example_key:
  "fingerprint example_endpoint [] = ''/api/content/main_page/ru{}''"
  by code_simp

lemma example_lookup:
  "map_of example_cache (fingerprint example_endpoint []) = Some example_entry"
  by (simp add: example_key) (simp add: example_cache_def)

lemma example_miss:
  "map_of ([] :: nat cache) (fingerprint example_endpoint []) = None"
  by simp

lemma example_response_json:
  "response_json updated_response =
     Inr (Some \<lparr>success = True, data = Some 9, error = None, message = None\<rparr>)"
  "response_json garbled_response = Inl (Error ''Unexpected token < in JSON at position 0'')"
  "response_json (directed_response cc) =
     Inr (Some \<lparr>success = True, data = Some 9, error = None, message = None\<rparr>)"
  "response_json null_response = Inr None"
  by (simp_all add: response_json_def null_body_status_def updated_response_def
      garbled_response_def directed_response_def null_response_def)



subsection \<open>Transport failure\<close>

text \<open>
  C1, as the code has it. When \<open>fetch\<close> rejects with a thrown value \<open>t\<close>, the store is
  left as it was and: if an entry exists for the fingerprint and its age at that moment is
  strictly less than twice its \<open>ttl\<close>, the call returns \<open>{ success: true, data }\<close> with the
  entry's payload, and the stale serve is recorded as one console warning naming the
  fingerprint; otherwise it returns \<open>{ success: false, error }\<close> with the message of \<open>t\<close>
  (\<open>'Unknown error occurred'\<close> when \<open>t\<close> is not an \<open>Error\<close>). The returned object has no
  field that tells a stale serve from any other success.
\<close>

theorem transport_error_stale_fallback:
  assumes "fetch (build_request cfg cache now endpoint options) = Rejected t"
  shows "let out = requestWithCache cfg fetch now now' cache endpoint options customTTL;
             k = fingerprint endpoint options
         in cache_after out = cache \<and>
            (case map_of cache k of
               Some cached \<Rightarrow>
                 if now' - timestamp cached < 2 * ttl cached
                 then result out =
                        Some \<lparr>success = True, data = entry_data cached, error = None,
                              message = None\<rparr>
                      \<and> console out = [Warn_stale_cache k]
                 else result out =
                        Some \<lparr>success = False, data = None, error = Some (error_message t),
                              message = None\<rparr>
                      \<and> console out = [Error_cached_request_failed t]
             | None \<Rightarrow>
                 result out =
                   Some \<lparr>success = False, data = None, error = Some (error_message t),
                         message = None\<rparr>
                 \<and> console out = [Error_cached_request_failed t])"
  using assms
  by (simp add: requestWithCache_rejected on_error_def succeed_def fail_def Let_def
      split: option.splits)

theorem transport_error_stale_fallback_witness:
  "result (requestWithCache example_config offline 500 1999 example_cache example_endpoint [] None)
     = Some \<lparr>success = True, data = Some 7, error = None, message = None\<rparr> \<and>
   console (requestWithCache example_config offline 500 1999 example_cache example_endpoint [] None)
     = [Warn_stale_cache ''/api/content/main_page/ru{}''] \<and>
   result (requestWithCache example_config offline 500 2000 example_cache example_endpoint [] None)
     = Some \<lparr>success = False, data = None, error = Some ''Failed to fetch'', message = None\<rparr>"
proof -
  have h: "offline (build_request example_config example_cache 500 example_endpoint []) =
           Rejected (Error ''Failed to fetch'')"
    by (simp add: offline_def)
  show ?thesis
    using transport_error_stale_fallback [where fetch = offline and cfg = example_config and
          cache = "example_cache" and now = 500 and endpoint = example_endpoint and
          options = "[]" and now' = 1999 and customTTL = None,
          OF h]
      transport_error_stale_fallback [where fetch = offline and cfg = example_config and
          cache = "example_cache" and now = 500 and endpoint = example_endpoint and
          options = "[]" and now' = 2000 and customTTL = None,
          OF h]
    by (simp add: Let_def example_lookup) (simp add: example_key example_entry_def error_message_def)
qed

text \<open>
  C1 as the specification words it asks for the result to be marked as served from the
  stale cache. Here the entry has \<open>ttl\<close> 1000. At age 1500 it is stale and the network is
  down: the call falls back on it. At age 500 it is fresh and the server answers the
  conditional request with 304. The two calls return the same object.
\<close>

theorem stale_result_unmarked_counterexample:
  "result (requestWithCache example_config offline 1500 1500 example_cache example_endpoint [] None)
     = Some \<lparr>success = True, data = Some 7, error = None, message = None\<rparr> \<and>
   result (requestWithCache example_config offline 1500 1500 example_cache example_endpoint [] None)
     = result (requestWithCache example_config unchanged_server 500 600 example_cache
                 example_endpoint [] None)"
  by code_simp

subsection \<open>Not modified\<close>

text \<open>
  C2. When the server answers with status 304 the store is left as it was. If an entry
  exists for the fingerprint, the call succeeds and its data is the entry's payload. If
  none exists, the call fails and carries no data: the body of a 304 response is null, so
  decoding it throws and the \<open>catch\<close> block, finding no entry, reports the error.
\<close>

theorem not_modified:
  assumes "fetch (build_request cfg cache now endpoint options) = Resolved r"
    and "status r = 304"
  shows "let out = requestWithCache cfg fetch now now' cache endpoint options customTTL
         in cache_after out = cache \<and>
            (case map_of cache (fingerprint endpoint options) of
               Some cached \<Rightarrow>
                 (\<exists>res. result out = Some res \<and> success res \<and> data res = entry_data cached)
             | None \<Rightarrow>
                 (\<exists>res. result out = Some res \<and> \<not> success res \<and> data res = None \<and>
                        error res \<noteq> None))"
proof (cases "map_of cache (fingerprint endpoint options)")
  case None
  have "response_json r = Inl (Error ''Unexpected end of JSON input'')"
    using assms(2) by (simp add: response_json_def null_body_status_def)
  then show ?thesis
    using assms(1) None
    by (simp add: requestWithCache_undecodable on_error_def fail_def Let_def)
next
  case (Some cached)
  then show ?thesis
    using assms by (simp add: requestWithCache_def Let_def succeed_def)
qed

theorem not_modified_witness:
  "cache_after (requestWithCache example_config unchanged_server 500 600 example_cache
                  example_endpoint [] None) = example_cache \<and>
   map_option success (result (requestWithCache example_config unchanged_server 500 600
                                 example_cache example_endpoint [] None)) = Some True \<and>
   map_option data (result (requestWithCache example_config unchanged_server 500 600
                              example_cache example_endpoint [] None)) = Some (Some 7) \<and>
   map_option success (result (requestWithCache example_config unchanged_server 500 600 []
                                 example_endpoint [] None)) = Some False \<and>
   cache_after (requestWithCache example_config unchanged_server 500 600 []
                  example_endpoint [] None) = []"
proof -
  let ?r = "\<lparr>status = 304, ETag = Some ''v1'', Cache_Control = None,
              Bankim_Content_Version = None, body_json = Inl NotAnError\<rparr> :: nat response"
  have h: "unchanged_server (build_request example_config example_cache 500 example_endpoint [])
           = Resolved ?r"
    and h': "unchanged_server (build_request example_config [] 500 example_endpoint [])
           = Resolved ?r"
    and s: "status ?r = 304"
    by (simp_all add: unchanged_server_def)
  show ?thesis
    using not_modified [where fetch = unchanged_server and cfg = example_config and
          cache = "example_cache" and now = 500 and endpoint = example_endpoint and
          options = "[]" and now' = 600 and customTTL = None,
          OF h s]
      not_modified [where fetch = unchanged_server and cfg = example_config and
          cache = "[]" and now = 500 and endpoint = example_endpoint and
          options = "[]" and now' = 600 and customTTL = None,
          OF h' s]
    by (simp add: Let_def example_lookup) (auto simp add: example_entry_def)
qed

subsection \<open>The conditional header\<close>




subsection \<open>A decoded response\<close>




subsection \<open>A body that does not decode\<close>

text \<open>
  C5, as the code has it. When the status is not 304 and decoding the body throws \<open>t\<close>,
  the \<open>catch\<close> block that handles a transport failure handles this too: the store is
  left as it was, and the call returns the payload of a cached entry younger than twice
  its \<open>ttl\<close> as a success when there is one, and otherwise a failure with the message of
  \<open>t\<close> and no data. Nothing of the undecodable body is returned or stored.
\<close>

theorem undecodable_body:
  assumes "fetch (build_request cfg cache now endpoint options) = Resolved r"
    and "status r \<noteq> 304" and "response_json r = Inl t"
  shows "let out = requestWithCache cfg fetch now now' cache endpoint options customTTL;
             k = fingerprint endpoint options
         in cache_after out = cache \<and>
            (case map_of cache k of
               Some cached \<Rightarrow>
                 if now' - timestamp cached < 2 * ttl cached
                 then result out =
                        Some \<lparr>success = True, data = entry_data cached, error = None,
                              message = None\<rparr>
                 else result out =
                        Some \<lparr>success = False, data = None, error = Some (error_message t),
                              message = None\<rparr>
             | None \<Rightarrow>
                 result out =
                   Some \<lparr>success = False, data = None, error = Some (error_message t),
                         message = None\<rparr>)"
  using assms
  by (simp add: requestWithCache_undecodable on_error_def succeed_def fail_def Let_def
      split: option.splits)

theorem undecodable_body_witness:
  "result (requestWithCache example_config garbled_server 1500 2000 example_cache
             example_endpoint [] None)
     = Some \<lparr>success = False, data = None,
             error = Some ''Unexpected token < in JSON at position 0'', message = None\<rparr> \<and>
   cache_after (requestWithCache example_config garbled_server 1500 2000 example_cache
                  example_endpoint [] None) = example_cache"
proof -
  have h: "garbled_server (build_request example_config example_cache 1500 example_endpoint [])
           = Resolved garbled_response"
    by (simp add: garbled_server_def)
  have s: "status garbled_response \<noteq> 304"
    by (simp add: garbled_response_def)
  show ?thesis
    using undecodable_body [where fetch = garbled_server and cfg = example_config and
          cache = "example_cache" and now = 1500 and endpoint = example_endpoint and
          options = "[]" and now' = 2000 and customTTL = None,
          OF h s example_response_json(2)]
    by (simp add: Let_def example_lookup) (simp add: example_entry_def error_message_def)
qed

text \<open>
  C5 as the specification words it has every undecodable body surface as a failure. With
  the example entry 1500 ms old (\<open>ttl\<close> 1000), a 200 response whose body is not JSON is
  answered with a success that carries the cached payload.
\<close>

theorem undecodable_body_counterexample:
  "map_option success (result (requestWithCache example_config garbled_server 1500 1500
                                 example_cache example_endpoint [] None)) = Some True \<and>
   map_option data (result (requestWithCache example_config garbled_server 1500 1500
                              example_cache example_endpoint [] None)) = Some (Some 7)"
  by code_simp

subsection \<open>Stored validators\<close>

lemma validated_object_set:
  assumes "validated cache" and "etag e \<noteq> []"
  shows "validated (object_set k e cache)"
  using assms set_object_set [of k e cache] unfolding validated_def by fastforce

lemma validated_requestWithCache:
  assumes "validated cache"
  shows "validated (cache_after (requestWithCache cfg fetch now now' cache endpoint options customTTL))"
  using assms
  by (auto simp add: requestWithCache_def on_error_def Let_def or_else_def truthy_def
      split: fetch_outcome.splits sum.splits option.splits intro!: validated_object_set)

lemma reachable_validated: "reachable cfg cache \<Longrightarrow> validated cache"
proof (induction rule: reachable.induct)
  case initial
  show ?case by (simp add: validated_def)
next
  case (request cache fetch now now' endpoint options customTTL)
  then show ?case by (simp add: validated_requestWithCache)
next
  case (clear cache)
  show ?case by (simp add: validated_def clearContentCache_def)
qed

text \<open>
  C10. The store starts empty and changes only through \<open>requestWithCache\<close> and
  \<open>clearContentCache\<close>. In every store reached this way each entry has a non-empty
  validator, and \<open>getCacheStats\<close> reports \<open>hasEtag = true\<close> for each entry.
\<close>

theorem stored_entries_have_validator:
  assumes "reachable cfg cache"
  shows "(\<forall>kv \<in> set cache. etag (snd kv) \<noteq> []) \<and>
         (\<forall>s \<in> set (entries (getCacheStats cache now)). hasEtag s)"
  using reachable_validated [OF assms] by (auto simp add: validated_def getCacheStats_def)

theorem stored_entries_have_validator_witness:
  "reachable example_config
     (cache_after (requestWithCache example_config updated_server 1500 1600 []
                     example_endpoint [] None)) \<and>
   map hasEtag (entries (getCacheStats
     (cache_after (requestWithCache example_config updated_server 1500 1600 []
                     example_endpoint [] None)) 2000)) = [True]"
proof -
  let ?c = "cache_after (requestWithCache example_config updated_server 1500 1600 []
                     example_endpoint [] None)"
  have r: "reachable example_config ?c"
    by (rule reachable.request [OF reachable.initial])
  have e: "length (entries (getCacheStats ?c 2000)) = 1"
    by code_simp
  show ?thesis
    using r e stored_entries_have_validator [OF r, of 2000]
    by (cases "entries (getCacheStats ?c 2000)") auto
qed

section \<open>Properties of the fingerprint\<close>

lemma of_char_hex_digit:
  "n < 16 \<Longrightarrow> (of_char (hex_digit n) :: nat) = (if n < 10 then 48 + n else 87 + n)"
  by (simp add: hex_digit_def)

lemma hex_digit_inject:
  assumes "hex_digit m = hex_digit n" and "m < 16" and "n < 16"
  shows "m = n"
proof -
  from assms(1) have "(of_char (hex_digit m) :: nat) = of_char (hex_digit n)" by simp
  with assms(2,3) show ?thesis by (simp add: of_char_hex_digit split: if_splits)
qed

lemma hex_digit_plain:
  "n < 16 \<Longrightarrow> hex_digit n \<noteq> CHR 0x22 \<and> hex_digit n \<noteq> CHR 0x5C"
proof -
  assume n: "n < 16"
  have "(of_char (hex_digit n) :: nat) \<noteq> of_char (CHR 0x22)"
    "(of_char (hex_digit n) :: nat) \<noteq> of_char (CHR 0x5C)"
    using n by (simp_all add: of_char_hex_digit)
  then show ?thesis by auto
qed

lemma json_escape_shape:
  "json_escape c =
     (case shape c of
        Plain \<Rightarrow> [c]
      | Short l \<Rightarrow> [CHR 0x5C, l]
      | Long h l \<Rightarrow> [CHR 0x5C, CHR ''u'', CHR ''0'', CHR ''0'', hex_digit h, hex_digit l])"
  by (simp add: json_escape_def shape_def)

lemma shape_Plain: "shape c = Plain \<Longrightarrow> c \<noteq> CHR 0x22 \<and> c \<noteq> CHR 0x5C"
  by (auto simp add: shape_def split: if_splits)

lemma shape_Short:
  "shape c = Short l \<Longrightarrow> l \<noteq> CHR ''u''"
  "shape c = Short l \<Longrightarrow> shape c' = Short l \<Longrightarrow> c = c'"
  by (auto simp add: shape_def split: if_splits)

lemma shape_Long:
  "shape c = Long h l \<Longrightarrow> h < 16 \<and> l < 16 \<and> (of_char c :: nat) = 16 * h + l"
  by (auto simp add: shape_def split: if_splits)

lemma shape_Long_inject:
  assumes "shape c = Long h l" and "shape c' = Long h l"
  shows "c = c'"
proof -
  have "(of_char c :: nat) = of_char c'"
    using shape_Long [OF assms(1)] shape_Long [OF assms(2)] by simp
  then show ?thesis by simp
qed

lemma json_escape_prefix_free:
  assumes "json_escape x @ r1 = json_escape y @ r2"
  shows "x = y \<and> r1 = r2"
proof (cases "shape x")
  case Plain
  note px = this
  show ?thesis
  proof (cases "shape y")
    case Plain
    with px assms show ?thesis by (simp add: json_escape_shape)
  next
    case (Short l)
    with px assms shape_Plain [OF px] show ?thesis by (simp add: json_escape_shape)
  next
    case (Long h l)
    with px assms shape_Plain [OF px] show ?thesis by (simp add: json_escape_shape)
  qed
next
  case (Short l)
  note sx = this
  show ?thesis
  proof (cases "shape y")
    case Plain
    with sx assms shape_Plain [OF Plain] show ?thesis by (auto simp add: json_escape_shape)
  next
    case (Short l')
    with sx assms have "l = l'" "r1 = r2" by (simp_all add: json_escape_shape)
    with sx Short shape_Short(2) show ?thesis by blast
  next
    case (Long h l')
    with sx assms shape_Short(1) [OF sx] show ?thesis by (simp add: json_escape_shape)
  qed
next
  case (Long h l)
  note lx = this
  show ?thesis
  proof (cases "shape y")
    case Plain
    with lx assms shape_Plain [OF Plain] show ?thesis by (auto simp add: json_escape_shape)
  next
    case (Short l')
    with lx assms shape_Short(1) [OF Short] show ?thesis by (auto simp add: json_escape_shape)
  next
    case (Long h' l')
    with lx assms have e: "hex_digit h = hex_digit h'" "hex_digit l = hex_digit l'" "r1 = r2"
      by (simp_all add: json_escape_shape)
    have "h = h'" "l = l'"
      using e shape_Long [OF lx] shape_Long [OF Long] by (auto intro: hex_digit_inject)
    with lx Long e(3) shape_Long_inject show ?thesis by blast
  qed
qed

lemma json_escape_not_quote: "json_escape c \<noteq> [] \<and> hd (json_escape c) \<noteq> CHR 0x22"
  using shape_Plain [of c]
  by (cases "shape c") (auto simp add: json_escape_shape)

lemma escaped_body_delimited:
  assumes "concat (map json_escape a) @ CHR 0x22 # r1 = concat (map json_escape b) @ CHR 0x22 # r2"
  shows "a = b \<and> r1 = r2"
  using assms
proof (induction a arbitrary: b)
  case Nil
  show ?case
  proof (cases b)
    case Nil
    with Nil.prems show ?thesis by simp
  next
    case (Cons y ys)
    with Nil.prems json_escape_not_quote [of y] show ?thesis
      by (cases "json_escape y") auto
  qed
next
  case (Cons x xs)
  show ?case
  proof (cases b)
    case Nil
    with Cons.prems json_escape_not_quote [of x] show ?thesis
      by (cases "json_escape x") auto
  next
    case (Cons y ys)
    with Cons.prems have
      "json_escape x @ (concat (map json_escape xs) @ CHR 0x22 # r1) =
       json_escape y @ (concat (map json_escape ys) @ CHR 0x22 # r2)"
      by simp
    then have "x = y" and
      "concat (map json_escape xs) @ CHR 0x22 # r1 = concat (map json_escape ys) @ CHR 0x22 # r2"
      using json_escape_prefix_free by blast+
    with Cons.IH [of ys] Cons show ?thesis by simp
  qed
qed

lemma json_quote_delimited:
  "json_quote a @ r1 = json_quote b @ r2 \<Longrightarrow> a = b \<and> r1 = r2"
  using escaped_body_delimited [of a r1 b r2] by (simp add: json_quote_def)

lemma json_quote_Cons: "\<exists>t. json_quote s = CHR 0x22 # t"
  by (simp add: json_quote_def)

lemma json_pair_delimited:
  assumes "json_pair p @ r1 = json_pair q @ r2"
  shows "p = q \<and> r1 = r2"
proof -
  from assms have
    "json_quote (fst p) @ (CHR '':'' # json_quote (snd p) @ r1) =
     json_quote (fst q) @ (CHR '':'' # json_quote (snd q) @ r2)"
    by (simp add: json_pair_def)
  then have k: "fst p = fst q" and "json_quote (snd p) @ r1 = json_quote (snd q) @ r2"
    using json_quote_delimited by blast+
  then have "snd p = snd q \<and> r1 = r2"
    using json_quote_delimited by blast
  with k show ?thesis by (simp add: prod_eq_iff)
qed

lemma json_pair_Cons: "\<exists>t. json_pair p = CHR 0x22 # t"
  using json_quote_Cons [of "fst p"] by (auto simp add: json_pair_def)

lemma json_members_delimited:
  assumes del: "\<And>x y r1 r2. f x @ r1 = f y @ r2 \<Longrightarrow> x = y \<and> r1 = r2"
    and quo: "\<And>x. \<exists>t. f x = CHR 0x22 # t"
    and eq: "json_members (map f xs) @ CHR ''}'' # r1 = json_members (map f ys) @ CHR ''}'' # r2"
  shows "xs = ys \<and> r1 = r2"
  using eq
proof (induction xs arbitrary: ys)
  case Nil
  show ?case
  proof (cases ys)
    case Nil
    with Nil.prems show ?thesis by simp
  next
    case (Cons y ys')
    obtain t where "f y = CHR 0x22 # t" using quo by blast
    with Nil.prems Cons show ?thesis by (cases ys') simp_all
  qed
next
  case (Cons x xs)
  obtain t where fx: "f x = CHR 0x22 # t" using quo by blast
  show ?case
  proof (cases ys)
    case Nil
    with Cons.prems fx show ?thesis by (cases xs) simp_all
  next
    case (Cons y ys')
    let ?tl = "\<lambda>zs r. (if zs = [] then CHR ''}'' # r else CHR '','' # json_members (map f zs) @ CHR ''}'' # r)"
    have m: "json_members (map f (z # zs)) @ CHR ''}'' # r = f z @ ?tl zs r" for z zs r
      by (cases zs) simp_all
    from Cons.prems Cons have "f x @ ?tl xs r1 = f y @ ?tl ys' r2"
      by (simp only: m)
    then have xy: "x = y" and tl: "?tl xs r1 = ?tl ys' r2"
      using del by blast+
    have "xs = ys' \<and> r1 = r2"
    proof (cases "xs = []")
      case True
      with tl show ?thesis by (cases "ys' = []") simp_all
    next
      case False
      with tl have "ys' \<noteq> []" by (cases "ys' = []") simp_all
      with tl False have "json_members (map f xs) @ CHR ''}'' # r1 = json_members (map f ys') @ CHR ''}'' # r2"
        by simp
      then show ?thesis by (rule Cons.IH)
    qed
    with xy Cons show ?thesis by simp
  qed
qed

lemma json_object_delimited:
  assumes "\<And>x y r1 r2. f x @ r1 = f y @ r2 \<Longrightarrow> x = y \<and> r1 = r2"
    and "\<And>x. \<exists>t. f x = CHR 0x22 # t"
    and "json_object (map f xs) @ r1 = json_object (map f ys) @ r2"
  shows "xs = ys \<and> r1 = r2"
  using json_members_delimited [of f xs r1 ys r2] assms by (simp add: json_object_def)

lemma json_property_Cons: "\<exists>t. json_property p = CHR 0x22 # t"
  by (cases p) (simp_all add: json_quote_def)

lemma json_object_Cons: "\<exists>t. json_object ms = CHR ''{'' # t"
  by (simp add: json_object_def)

lemma json_property_delimited:
  assumes "json_property p @ r1 = json_property q @ r2"
  shows "p = q \<and> r1 = r2"
proof -
  let ?key = "\<lambda>p. case p of Method m \<Rightarrow> ''method'' | Headers hs \<Rightarrow> ''headers'' | Body b \<Rightarrow> ''body''"
  let ?val = "\<lambda>p. case p of Method m \<Rightarrow> json_quote m | Headers hs \<Rightarrow> json_object (map json_pair hs)
                     | Body b \<Rightarrow> json_quote b"
  have shape: "json_property p @ r = json_quote (?key p) @ (CHR '':'' # ?val p @ r)" for p r
    by (cases p) simp_all
  from assms have "json_quote (?key p) @ (CHR '':'' # ?val p @ r1) =
                   json_quote (?key q) @ (CHR '':'' # ?val q @ r2)"
    by (simp only: shape)
  then have k: "?key p = ?key q" and v: "?val p @ r1 = ?val q @ r2"
    using json_quote_delimited by blast+
  show ?thesis
  proof (cases p)
    case (Method m)
    with k obtain m' where q: "q = Method m'" by (cases q) simp_all
    with v Method json_quote_delimited [of m r1 m' r2] show ?thesis by simp
  next
    case (Headers hs)
    with k obtain hs' where q: "q = Headers hs'" by (cases q) simp_all
    with v Headers have "json_object (map json_pair hs) @ r1 = json_object (map json_pair hs') @ r2"
      by simp
    then have "hs = hs' \<and> r1 = r2"
      using json_pair_delimited json_pair_Cons by (rule json_object_delimited [rotated 2])
    with q Headers show ?thesis by simp
  next
    case (Body b)
    with k obtain b' where q: "q = Body b'" by (cases q) simp_all
    with v Body json_quote_delimited [of b r1 b' r2] show ?thesis by simp
  qed
qed

lemma JSON_stringify_delimited:
  assumes "JSON_stringify o1 @ r1 = JSON_stringify o2 @ r2"
  shows "o1 = o2 \<and> r1 = r2"
proof -
  from assms have "json_object (map json_property o1) @ r1 = json_object (map json_property o2) @ r2"
    by (simp only: JSON_stringify_def)
  then show ?thesis
    using json_property_delimited json_property_Cons by (rule json_object_delimited [rotated 2])
qed

lemma JSON_stringify_inject: "JSON_stringify o1 = JSON_stringify o2 \<longleftrightarrow> o1 = o2"
  using JSON_stringify_delimited [of o1 "[]" o2 "[]"] by auto

lemma scan_append:
  "scan s (a @ b) = (case scan s a of None \<Rightarrow> None | Some s' \<Rightarrow> scan s' b)"
  by (induction a arbitrary: s) (simp_all split: option.splits)

lemma scan_escape: "scan (In, d) (json_escape c) = Some (In, d)"
proof (cases "shape c")
  case Plain
  with shape_Plain [OF Plain] show ?thesis by (simp add: json_escape_shape)
next
  case (Short l)
  then show ?thesis by (simp add: json_escape_shape)
next
  case (Long h l)
  with shape_Long [OF Long] hex_digit_plain [of h] hex_digit_plain [of l]
  show ?thesis by (simp add: json_escape_shape)
qed

lemma scan_escaped_body: "scan (In, d) (concat (map json_escape s)) = Some (In, d)"
  by (induction s) (simp_all add: scan_append scan_escape)

lemma scan_quote: "scan (Out, d) (json_quote s) = Some (Out, d)"
  by (simp add: json_quote_def scan_append scan_escaped_body)

lemma scan_pair: "scan (Out, d) (json_pair p) = Some (Out, d)"
  by (simp add: json_pair_def scan_append scan_quote)

lemma scan_members:
  assumes "\<And>x. scan (Out, d) (f x) = Some (Out, d)"
  shows "scan (Out, d) (json_members (map f xs)) = Some (Out, d)"
proof (induction xs)
  case Nil
  show ?case by simp
next
  case (Cons x xs)
  then show ?case by (cases xs) (simp_all add: scan_append assms)
qed

lemma scan_object:
  assumes "\<And>x. scan (Out, Suc d) (f x) = Some (Out, Suc d)" and "1 \<le> d"
  shows "scan (Out, d) (json_object (map f xs)) = Some (Out, d)"
  using assms(2) by (simp add: json_object_def scan_append scan_members [of "Suc d" f, OF assms(1)])

lemma scan_property: "1 \<le> d \<Longrightarrow> scan (Out, d) (json_property p) = Some (Out, d)"
  by (cases p) (simp_all add: scan_append scan_quote scan_object scan_pair)

lemma scan_step_shift:
  "scan_step (m, d) c = Some (m', d') \<Longrightarrow> scan_step (m, d + k) c = Some (m', d' + k)"
  by (cases m) (auto split: if_splits)

lemma scan_shift:
  "scan (m, d) t = Some (m', d') \<Longrightarrow> scan (m, d + k) t = Some (m', d' + k)"
proof (induction t arbitrary: m d)
  case Nil
  then show ?case by simp
next
  case (Cons c t)
  then obtain m1 d1 where s: "scan_step (m, d) c = Some (m1, d1)" "scan (m1, d1) t = Some (m', d')"
    by (auto split: option.splits)
  from scan_step_shift [OF s(1)] Cons.IH [OF s(2)] show ?case by simp
qed

lemma scan_step_depth:
  "scan_step (m, d) c = Some (m', d') \<Longrightarrow> 1 \<le> d \<Longrightarrow> 1 \<le> d'"
  by (cases m) (auto split: if_splits)

lemma scan_depth: "scan (m, d) t = Some (m', d') \<Longrightarrow> 1 \<le> d \<Longrightarrow> 1 \<le> d'"
proof (induction t arbitrary: m d)
  case Nil
  then show ?case by simp
next
  case (Cons c t)
  then obtain m1 d1 where s: "scan_step (m, d) c = Some (m1, d1)" "scan (m1, d1) t = Some (m', d')"
    by (auto split: option.splits)
  from scan_step_depth [OF s(1) Cons.prems(2)] Cons.IH [OF s(2)] show ?case by simp
qed

lemma JSON_stringify_members:
  "JSON_stringify options = CHR ''{'' # members_text options @ [CHR ''}'']"
  by (simp add: JSON_stringify_def json_object_def members_text_def)

lemma scan_members_text: "scan (Out, 1) (members_text options) = Some (Out, 1)"
  unfolding members_text_def by (rule scan_members) (simp add: scan_property)

lemma members_text_start:
  assumes "options \<noteq> []"
  shows "\<exists>c rest. members_text options = CHR 0x22 # c # rest \<and> scan_step (Out, d) c = None"
proof -
  from assms obtain p ps where o: "options = p # ps" by (cases options) auto
  have q: "json_quote ''method'' = CHR 0x22 # CHR ''m'' # ''ethod'' @ [CHR 0x22]"
    "json_quote ''headers'' = CHR 0x22 # CHR ''h'' # ''eaders'' @ [CHR 0x22]"
    "json_quote ''body'' = CHR 0x22 # CHR ''b'' # ''ody'' @ [CHR 0x22]"
    by (simp_all add: json_quote_def json_escape_def)
  have "\<exists>c rest. json_property p = CHR 0x22 # c # rest \<and> scan_step (Out, d) c = None"
    by (cases p) (simp_all add: q)
  then obtain c rest where "json_property p = CHR 0x22 # c # rest" "scan_step (Out, d) c = None"
    by blast
  with o show ?thesis by (cases ps) (simp_all add: members_text_def)
qed

lemma scan_inside_fails:
  "scan (In, d) (CHR ''{'' # members_text options) \<noteq> Some (Out, 1)"
proof (cases "options = []")
  case True
  then show ?thesis by (simp add: members_text_def)
next
  case False
  from members_text_start [OF False, of d] show ?thesis by auto
qed

lemma JSON_stringify_no_proper_suffix:
  assumes "JSON_stringify o1 = x @ JSON_stringify o2"
  shows "x = []"
proof (rule ccontr)
  assume "x \<noteq> []"
  with assms obtain x' where x: "x = CHR ''{'' # x'"
    by (cases x) (simp_all add: JSON_stringify_members)
  with assms have "members_text o1 @ [CHR ''}''] = (x' @ CHR ''{'' # members_text o2) @ [CHR ''}'']"
    by (simp add: JSON_stringify_members)
  then have m: "members_text o1 = x' @ CHR ''{'' # members_text o2"
    by (simp only: append1_eq_conv)
  have "scan (Out, 1) (x' @ CHR ''{'' # members_text o2) = Some (Out, 1)"
    using scan_members_text [of o1] by (simp only: m)
  then obtain md d where s: "scan (Out, 1) x' = Some (md, d)"
    "scan (md, d) (CHR ''{'' # members_text o2) = Some (Out, 1)"
    by (auto simp add: scan_append split: option.splits)
  have d: "1 \<le> d" using scan_depth [OF s(1)] by simp
  show False
  proof (cases md)
    case Out
    with s(2) have "scan (Out, Suc d) (members_text o2) = Some (Out, 1)" by simp
    moreover have "scan (Out, 1 + d) (members_text o2) = Some (Out, 1 + d)"
      using scan_shift [OF scan_members_text [of o2], of d] by simp
    ultimately show False using d by simp
  next
    case In
    with s(2) scan_inside_fails show False by blast
  next
    case Esc
    with s(2) have "scan (In, d) (members_text o2) = Some (Out, 1)" by simp
    moreover have "scan (In, d) (CHR ''{'' # members_text o2) = scan (In, d) (members_text o2)"
      by simp
    ultimately show False using scan_inside_fails [of d o2] by simp
  qed
qed

lemma fingerprint_inject:
  "fingerprint e1 o1 = fingerprint e2 o2 \<longleftrightarrow> e1 = e2 \<and> o1 = o2"
proof
  assume "fingerprint e1 o1 = fingerprint e2 o2"
  then have "e1 @ JSON_stringify o1 = e2 @ JSON_stringify o2"
    by (simp only: fingerprint_def)
  then have "\<exists>u. e1 = e2 @ u \<and> u @ JSON_stringify o1 = JSON_stringify o2 \<or>
                 e1 @ u = e2 \<and> JSON_stringify o1 = u @ JSON_stringify o2"
    by (simp only: append_eq_append_conv2)
  then obtain u where u:
    "e1 = e2 @ u \<and> JSON_stringify o2 = u @ JSON_stringify o1 \<or>
     e1 @ u = e2 \<and> JSON_stringify o1 = u @ JSON_stringify o2"
    by metis
  then have "u = []"
    using JSON_stringify_no_proper_suffix by blast
  with u have "e1 = e2" and "JSON_stringify o1 = JSON_stringify o2"
    by auto
  then show "e1 = e2 \<and> o1 = o2"
    by (simp only: JSON_stringify_inject)
next
  assume "e1 = e2 \<and> o1 = o2"
  then show "fingerprint e1 o1 = fingerprint e2 o2" by simp
qed

text \<open>
  C7, as the code has it. The fingerprint is the endpoint followed by the JSON text of
  the options, a function of the two alone, and nothing is normalised on the way. Over
  options whose \<open>method\<close> and \<open>body\<close> are strings and whose \<open>headers\<close> are a plain
  object of strings, compared as \<open>JSON.stringify\<close> sees them (the properties in their
  order), that function is one-to-one: two calls have the same fingerprint if and only
  if they have the same endpoint and the same options. So identical calls share a
  fingerprint, and two requests that differ in \<open>method\<close> or in \<open>body\<close> never do,
  whatever their endpoints.
\<close>

theorem fingerprint_deterministic_and_distinguishing:
  "(fingerprint e1 o1 = fingerprint e2 o2 \<longleftrightarrow> e1 = e2 \<and> o1 = o2) \<and>
   (options_method o1 \<noteq> options_method o2 \<or> options_body o1 \<noteq> options_body o2 \<longrightarrow>
      fingerprint e1 o1 \<noteq> fingerprint e2 o2)"
  using fingerprint_inject [of e1 o1 e2 o2] by auto

theorem fingerprint_deterministic_and_distinguishing_witness:
  "fingerprint example_endpoint [Method ''PUT'', Body ''{}''] \<noteq>
     fingerprint example_endpoint [Method ''PUT'', Body ''[]''] \<and>
   fingerprint example_endpoint [Method ''PUT'', Body ''{}''] \<noteq>
     fingerprint example_endpoint [Method ''POST'', Body ''{}''] \<and>
   fingerprint example_endpoint [Method ''PUT'', Body ''{}''] \<noteq>
     fingerprint (example_endpoint @ ''{'') [Method ''PUT'', Body ''{}'']"
proof -
  have b: "options_method [Method ''PUT'', Body ''{}''] \<noteq> options_method [Method ''PUT'', Body ''[]'']
           \<or> options_body [Method ''PUT'', Body ''{}''] \<noteq> options_body [Method ''PUT'', Body ''[]'']"
    by simp
  have m: "options_method [Method ''PUT'', Body ''{}''] \<noteq> options_method [Method ''POST'', Body ''{}'']
           \<or> options_body [Method ''PUT'', Body ''{}''] \<noteq> options_body [Method ''POST'', Body ''{}'']"
    by simp
  have e: "\<not> (example_endpoint = example_endpoint @ ''{'' \<and>
               [Method ''PUT'', Body ''{}''] = [Method ''PUT'', Body ''{}''])"
    by simp
  show ?thesis
    using fingerprint_deterministic_and_distinguishing
        [of example_endpoint "[Method ''PUT'', Body ''{}'']" example_endpoint
            "[Method ''PUT'', Body ''[]'']"]
      fingerprint_deterministic_and_distinguishing
        [of example_endpoint "[Method ''PUT'', Body ''{}'']" example_endpoint
            "[Method ''POST'', Body ''{}'']"]
      fingerprint_deterministic_and_distinguishing
        [of example_endpoint "[Method ''PUT'', Body ''{}'']" "example_endpoint @ ''{''"
            "[Method ''PUT'', Body ''{}'']"]
      b m e
    by blast
qed

text \<open>
  C7 as the specification words it gives two logically identical requests the same
  fingerprint. These two requests go to the same endpoint with the same method, the same
  body and the same headers; their options list \<open>method\<close> and \<open>body\<close> in a different
  order, and their fingerprints differ.
\<close>

theorem reordered_options_counterexample:
  "options_method [Method ''PUT'', Body ''{}''] = options_method [Body ''{}'', Method ''PUT''] \<and>
   options_body [Method ''PUT'', Body ''{}''] = options_body [Body ''{}'', Method ''PUT''] \<and>
   options_headers [Method ''PUT'', Body ''{}''] = options_headers [Body ''{}'', Method ''PUT''] \<and>
   fingerprint example_endpoint [Method ''PUT'', Body ''{}''] \<noteq>
     fingerprint example_endpoint [Body ''{}'', Method ''PUT'']"
  by code_simp

section \<open>Properties of the content aggregator\<close>

lemma digit_value_digit_char: "d < 10 \<Longrightarrow> digit_value (digit_char d) = d"
  by (simp add: digit_value_def digit_char_def)

lemma parseInt_string_of_nat: "parseInt_digits (string_of_nat n) = n"
proof (induction n rule: string_of_nat.induct)
  case (1 n)
  show ?case
  proof (cases "n < 10")
    case True
    then show ?thesis
      by (simp add: string_of_nat.simps [of n] parseInt_digits_def digit_value_digit_char)
  next
    case False
    then show ?thesis
      using 1 by (simp add: string_of_nat.simps [of n] parseInt_digits_snoc digit_value_digit_char)
  qed
qed

lemma action_id_inject [simp]: "action_id m = action_id n \<longleftrightarrow> m = n"
proof
  assume "action_id m = action_id n"
  then have "parseInt_digits (string_of_nat m) = parseInt_digits (string_of_nat n)"
    by (simp add: action_id_def)
  then show "m = n" by (simp add: parseInt_string_of_nat)
qed simp

lemma keys_object_set:
  "map fst (object_set k v obj) = (if k \<in> fst ` set obj then map fst obj else map fst obj @ [k])"
  by (induction obj) auto

lemma distinct_object_set: "distinct (map fst obj) \<Longrightarrow> distinct (map fst (object_set k v obj))"
  by (simp add: keys_object_set)

lemma build_snoc: "build (its @ [it]) = process_entry (fst it) (snd it) (build its)"
  by (simp add: build_def)

lemma supplied_snoc:
  "supplied (its @ [it]) lang n =
     supplied its lang n @
       (if fst it = lang \<and> match_action (fst (snd it)) = Some n
        then [first_or_self (item_value (snd (snd it)))] else [])"
  by (simp add: supplied_def)

lemma pageNumber_updates [simp]:
  "pageNumber (set_titles lang d p) = pageNumber p"
  "pageNumber (set_content_type d p) = pageNumber p"
  "pageNumber (new_page n d) = n"
  "pageNumber (finish_page p) = pageNumber p"
  by (simp_all add: set_titles_def set_content_type_def new_page_def finish_page_def
      split: content_value.splits)

lemma titles_set_content_type [simp]:
  "title (set_content_type d p) = title p"
  "titleRu (set_content_type d p) = titleRu p"
  "titleHe (set_content_type d p) = titleHe p"
  "titleEn (set_content_type d p) = titleEn p"
  by (simp_all add: set_content_type_def split: content_value.splits)

lemma build_keys: "(k, p) \<in> set (build its) \<Longrightarrow> k = action_id (pageNumber p)"
proof (induction its arbitrary: k p rule: rev_induct)
  case Nil
  then show ?case by (simp add: build_def)
next
  case (snoc it its)
  show ?case
  proof (cases "match_action (fst (snd it))")
    case None
    with snoc show ?thesis by (simp add: build_snoc process_entry_def)
  next
    case (Some n)
    let ?page = "case map_of (build its) (action_id n) of None \<Rightarrow> new_page n (snd (snd it)) | Some q \<Rightarrow> q"
    let ?new = "set_content_type (snd (snd it)) (set_titles (fst it) (snd (snd it)) ?page)"
    have b: "build (its @ [it]) = object_set (action_id n) ?new (build its)"
      using Some by (simp add: build_snoc process_entry_def Let_def)
    have n: "pageNumber ?new = n"
    proof (cases "map_of (build its) (action_id n)")
      case None
      then show ?thesis by simp
    next
      case (Some q)
      then have "action_id n = action_id (pageNumber q)"
        using snoc.IH [of "action_id n" q] by (simp add: map_of_SomeD)
      with Some show ?thesis by simp
    qed
    from snoc.prems b set_object_set [of "action_id n" ?new "build its"]
    have "(k, p) = (action_id n, ?new) \<or> (k, p) \<in> set (build its)" by auto
    then show ?thesis using n snoc.IH by auto
  qed
qed

lemma build_distinct: "distinct (map fst (build its))"
proof (induction its rule: rev_induct)
  case Nil
  then show ?case by (simp add: build_def)
next
  case (snoc it its)
  then show ?case
    by (simp add: build_snoc process_entry_def Let_def distinct_object_set split: option.splits)
qed

lemma build_lookup:
  "case map_of (build its) (action_id n) of
     None \<Rightarrow> (\<forall>lang. supplied its lang n = [])
   | Some p \<Rightarrow> titles_agree its n p"
proof (induction its rule: rev_induct)
  case Nil
  then show ?case by (simp add: build_def supplied_def)
next
  case (snoc it its)
  show ?case
  proof (cases "match_action (fst (snd it)) = Some n")
    case False
    then have m: "map_of (build (its @ [it])) (action_id n) = map_of (build its) (action_id n)"
      by (auto simp add: build_snoc process_entry_def Let_def map_of_object_set split: option.splits)
    have s: "supplied (its @ [it]) lang n = supplied its lang n" for lang
      using False by (simp add: supplied_snoc)
    show ?thesis using snoc by (simp add: m s titles_agree_def split: option.splits)
  next
    case True
    let ?d = "snd (snd it)"
    let ?page = "case map_of (build its) (action_id n) of None \<Rightarrow> new_page n ?d | Some q \<Rightarrow> q"
    let ?new = "set_content_type ?d (set_titles (fst it) ?d ?page)"
    have b: "map_of (build (its @ [it])) (action_id n) = Some ?new"
      using True by (simp add: build_snoc process_entry_def Let_def map_of_object_set)
    have old: "titles_agree its n ?page"
      using snoc by (auto simp add: titles_agree_def new_page_def latest_def split: option.splits)
    have "titles_agree (its @ [it]) n ?new"
      using old True
      by (auto simp add: titles_agree_def supplied_snoc set_titles_def latest_def)
    with b show ?thesis by simp
  qed
qed

lemma process_response_items:
  "process_response r m = foldl (\<lambda>m it. process_entry (fst it) (snd it) m) m (items [r])"
  by (simp add: process_response_def items_def foldl_map split: option.splits)

lemma items_Cons: "items (r # rs) = items [r] @ items rs"
  by (simp add: items_def)

lemma foldl_process_response:
  "foldl (\<lambda>m r. process_response r m) m rs =
   foldl (\<lambda>m it. process_entry (fst it) (snd it) m) m (items rs)"
proof (induction rs arbitrary: m)
  case Nil
  show ?case by (simp add: items_def)
next
  case (Cons r rs)
  have "foldl (\<lambda>m r. process_response r m) m (r # rs) =
        foldl (\<lambda>m it. process_entry (fst it) (snd it) m) (process_response r m) (items rs)"
    by (simp add: Cons.IH)
  also have "\<dots> = foldl (\<lambda>m it. process_entry (fst it) (snd it) m) m (items [r] @ items rs)"
    by (simp only: foldl_append process_response_items)
  finally show ?case by (simp only: items_Cons [of r rs])
qed

lemma transform_build:
  "transformApiToContentPages rs =
   sort_key pageNumber
     (map finish_page (filter (\<lambda>page. truthy (title page)) (map snd (build (items rs)))))"
  by (simp add: transformApiToContentPages_def foldl_process_response build_def)

lemma build_member:
  "p \<in> snd ` set (build its) \<longleftrightarrow> map_of (build its) (action_id (pageNumber p)) = Some p"
proof
  assume "p \<in> snd ` set (build its)"
  then obtain k where k: "(k, p) \<in> set (build its)" by auto
  then have "k = action_id (pageNumber p)" by (rule build_keys)
  with k show "map_of (build its) (action_id (pageNumber p)) = Some p"
    using build_distinct [of its] by simp
next
  assume "map_of (build its) (action_id (pageNumber p)) = Some p"
  then have "(action_id (pageNumber p), p) \<in> set (build its)" by (rule map_of_SomeD)
  then show "p \<in> snd ` set (build its)" by force
qed

lemma finish_page_titles [simp]:
  "titleHe (finish_page p) = titleHe p" "titleEn (finish_page p) = titleEn p"
  "titleRu (finish_page p) = titleRu p"
  "truthy (title p) \<Longrightarrow> title (finish_page p) = title p"
  by (simp_all add: finish_page_def or_else_def)

lemma set_transform:
  "set (transformApiToContentPages rs) =
   finish_page ` {p. map_of (build (items rs)) (action_id (pageNumber p)) = Some p \<and> truthy (title p)}"
  by (auto simp add: transform_build build_member [symmetric])

lemma truthy_latest_supplied:
  "truthy (latest (supplied its lang n)) \<Longrightarrow> supplied its lang n \<noteq> []"
  by (auto simp add: latest_def truthy_def)

lemma page_present_iff:
  "(\<exists>p \<in> set (transformApiToContentPages rs). pageNumber p = n) \<longleftrightarrow>
   truthy (latest (supplied (items rs) ''ru'' n))"
proof
  assume "\<exists>p \<in> set (transformApiToContentPages rs). pageNumber p = n"
  then obtain q where q: "map_of (build (items rs)) (action_id n) = Some q" "truthy (title q)"
    by (auto simp add: set_transform)
  with build_lookup [of "items rs" n] show "truthy (latest (supplied (items rs) ''ru'' n))"
    by (simp add: titles_agree_def)
next
  assume t: "truthy (latest (supplied (items rs) ''ru'' n))"
  then have "supplied (items rs) ''ru'' n \<noteq> []" by (rule truthy_latest_supplied)
  with build_lookup [of "items rs" n]
  obtain q where q: "map_of (build (items rs)) (action_id n) = Some q" "titles_agree (items rs) n q"
    by (auto split: option.splits)
  then have "pageNumber q = n" "truthy (title q)"
    using t by (simp_all add: titles_agree_def)
  with q(1) have "finish_page q \<in> set (transformApiToContentPages rs)"
    by (auto simp add: set_transform)
  moreover have "pageNumber (finish_page q) = n" using \<open>pageNumber q = n\<close> by simp
  ultimately show "\<exists>p \<in> set (transformApiToContentPages rs). pageNumber p = n" by blast
qed

lemma page_titles:
  assumes "p \<in> set (transformApiToContentPages rs)"
  shows "title p = latest (supplied (items rs) ''ru'' (pageNumber p)) \<and>
         titleRu p = latest (supplied (items rs) ''ru'' (pageNumber p)) \<and>
         titleHe p = latest (supplied (items rs) ''he'' (pageNumber p)) \<and>
         titleEn p = latest (supplied (items rs) ''en'' (pageNumber p))"
proof -
  from assms obtain q where q: "p = finish_page q"
    "map_of (build (items rs)) (action_id (pageNumber q)) = Some q" "truthy (title q)"
    by (auto simp add: set_transform)
  with build_lookup [of "items rs" "pageNumber q"] have "titles_agree (items rs) (pageNumber q) q"
    by simp
  with q show ?thesis by (simp add: titles_agree_def)
qed





section \<open>Properties of the facade and the aggregator\<close>

subsection \<open>Order of the aggregated pages\<close>




lemma example_keys:
  "match_action ''app.main.action.3.text.c'' = Some 3"
  "match_action ''app.main.action.1.dropdown.a'' = Some 1"
  "match_action ''app.main.action.2.link.b'' = Some 2"
  by (simp_all add: startsWith_def is_digit_def parseInt_digits_def digit_value_def)

lemma example_supplied:
  "supplied (items [hebrew_1, russian_312]) ''ru'' n =
     (if n = 3 then [Some ''C''] else if n = 1 then [Some ''A''] else if n = 2 then [Some ''B''] else [])"
  "supplied (items [hebrew_1, russian_312]) ''he'' n = (if n = 1 then [Some ''Aleph''] else [])"
  "supplied (items [hebrew_1, russian_312]) ''en'' n = []"
  by (auto simp add: supplied_def items_def hebrew_1_def russian_312_def example_response_def
      example_item_def example_keys first_or_self_def simp del: match_action.simps)




subsection \<open>Which pages appear\<close>

text \<open>
  C9, as the code has it, for keys whose sequence numbers are safe integers (below
  \<open>2^53\<close>). A page for sequence number \<open>n\<close> is in the output if and only if
  the last value that a response in the primary language \<open>ru\<close> supplied for \<open>n\<close> is a
  non-empty string: only \<open>ru\<close> values set \<open>title\<close>, and pages without a \<open>title\<close> are
  filtered out. Each page that appears carries, per language, the last title supplied
  in that language for its number, and nothing (\<open>undefined\<close>) for a language that
  supplied none; so a page with a \<open>ru\<close> value and no \<open>he\<close> or \<open>en\<close> value appears with
  \<open>titleHe\<close> and \<open>titleEn\<close> unset.
\<close>

theorem aggregated_entry_presence:
  assumes "safe_numbers responses"
  shows "(n \<in> set (map pageNumber (transformApiToContentPages responses)) \<longleftrightarrow>
      truthy (latest (supplied (items responses) ''ru'' n))) \<and>
   (\<forall>p \<in> set (transformApiToContentPages responses).
      title p = latest (supplied (items responses) ''ru'' (pageNumber p)) \<and>
      titleHe p = latest (supplied (items responses) ''he'' (pageNumber p)) \<and>
      titleEn p = latest (supplied (items responses) ''en'' (pageNumber p)))"
proof (intro conjI ballI)
  have "n \<in> set (map pageNumber (transformApiToContentPages responses)) \<longleftrightarrow>
        (\<exists>p \<in> set (transformApiToContentPages responses). pageNumber p = n)"
    by force
  then show "n \<in> set (map pageNumber (transformApiToContentPages responses)) \<longleftrightarrow>
      truthy (latest (supplied (items responses) ''ru'' n))"
    by (simp add: page_present_iff)
qed (simp_all add: page_titles)

theorem aggregated_entry_presence_witness:
  "\<exists>p. p \<in> set (transformApiToContentPages [hebrew_1, russian_312]) \<and> pageNumber p = 2 \<and>
       title p = Some ''B'' \<and> titleHe p = None \<and> titleEn p = None"
proof -
  have t: "truthy (latest (supplied (items [hebrew_1, russian_312]) ''ru'' 2))"
    by (simp add: example_supplied latest_def truthy_def)
  have s: "safe_numbers [hebrew_1, russian_312]"
    by (simp add: safe_numbers_def items_def hebrew_1_def russian_312_def example_response_def
        example_item_def example_keys safe_integer_def del: match_action.simps)
  from aggregated_entry_presence [where responses = "[hebrew_1, russian_312]" and n = 2, OF s] t
  obtain p where p: "p \<in> set (transformApiToContentPages [hebrew_1, russian_312])" "pageNumber p = 2"
    by auto
  with aggregated_entry_presence [where responses = "[hebrew_1, russian_312]" and n = 2, OF s]
  have "title p = Some ''B'' \<and> titleHe p = None \<and> titleEn p = None"
    by (simp add: example_supplied latest_def)
  with p show ?thesis by blast
qed

text \<open>
  C9 as the specification words it lets a title in any language bring a page into the
  output. A response in \<open>he\<close> that supplies the non-empty title \<open>Aleph\<close> for sequence
  number 1, with no \<open>ru\<close> response beside it, yields no page at all.
\<close>

theorem secondary_only_entry_counterexample:
  "safe_numbers [hebrew_1] \<and>
   supplied (items [hebrew_1]) ''he'' 1 = [Some ''Aleph''] \<and>
   transformApiToContentPages [hebrew_1] = []"
proof (intro conjI)
  show "safe_numbers [hebrew_1]"
    by (simp add: safe_numbers_def items_def hebrew_1_def example_response_def
        example_item_def example_keys safe_integer_def del: match_action.simps)
  show "supplied (items [hebrew_1]) ''he'' 1 = [Some ''Aleph'']"
    by code_simp
  show "transformApiToContentPages [hebrew_1] = []"
    by code_simp
qed

subsection \<open>The development fallback\<close>

lemma mockResponse_props:
  "content (mockResponse screen lang) = Some props \<Longrightarrow>
   map fst props = mock_keys \<and> map (\<lambda>kv. item_value (snd kv)) props = map Text (mock_values lang)
   \<and> map (\<lambda>kv. language (snd kv)) props = [lang, lang, lang, lang, lang, lang, lang]"
  by (auto simp add: mockResponse_def mock_keys_def mock_values_def by_language_def)

lemma mock_keys_numbers: "map match_action mock_keys = map Some [1, 2, 3, 4, 5, 6, 7]"
  by (simp add: mock_keys_def startsWith_def is_digit_def parseInt_digits_def digit_value_def)

lemma development_is_placeholder:
  "string_includes (API_BASE_URL development_config) ''localhost:3001''"
  "\<not> USE_REAL_CONTENT_DATA development_config"
  by (simp_all add: development_config_def startsWith_def)

text \<open>
  C6. When \<open>USE_REAL_CONTENT_DATA\<close> is set, \<open>isPlaceholderUrl\<close> is false for every
  address. When it is not set and \<open>API_BASE_URL\<close> contains one of the three placeholder
  patterns, \<open>isPlaceholderUrl\<close> is true of it and \<open>getContentByScreen\<close> sends no request,
  leaves the store as it was and returns a success whose data is \<open>mockResponse\<close>, a
  function of the two arguments alone: status \<open>success\<close>, the screen and the language
  echoed back, seven items under seven fixed keys, each carrying the language argument,
  with the Russian values for \<open>ru\<close>, the Hebrew ones for \<open>he\<close> and the English ones for
  any other language.
\<close>

theorem placeholder_guard:
  "(USE_REAL_CONTENT_DATA cfg \<longrightarrow> \<not> isPlaceholderUrl cfg address) \<and>
   (\<not> USE_REAL_CONTENT_DATA cfg \<and>
    (string_includes (API_BASE_URL cfg) ''your-api-domain.railway.app'' \<or>
     string_includes (API_BASE_URL cfg) ''your-backend-domain.railway.app'' \<or>
     string_includes (API_BASE_URL cfg) ''localhost:3001'') \<longrightarrow>
      isPlaceholderUrl cfg (API_BASE_URL cfg) \<and>
      getContentByScreen cfg fetch now now' cache screenLocation languageCode =
        \<lparr>result = Some \<lparr>success = True, data = Some (mockResponse screenLocation languageCode),
                         error = None, message = None\<rparr>,
         cache_after = cache, console = [Log_placeholder_mock], sent = []\<rparr>) \<and>
   api_status (mockResponse screenLocation languageCode) = ''success'' \<and>
   screen_location (mockResponse screenLocation languageCode) = screenLocation \<and>
   language_code (mockResponse screenLocation languageCode) = languageCode \<and>
   content_count (mockResponse screenLocation languageCode) = 7 \<and>
   (\<exists>props. content (mockResponse screenLocation languageCode) = Some props \<and>
      map fst props = mock_keys \<and>
      map (\<lambda>kv. item_value (snd kv)) props = map Text (mock_values languageCode) \<and>
      map (\<lambda>kv. language (snd kv)) props = [languageCode, languageCode, languageCode, languageCode, languageCode,
         languageCode, languageCode])"
proof -
  have "\<exists>props. content (mockResponse screenLocation languageCode) = Some props"
    by (simp add: mockResponse_def)
  then have "\<exists>props. content (mockResponse screenLocation languageCode) = Some props \<and>
      map fst props = mock_keys \<and>
      map (\<lambda>kv. item_value (snd kv)) props = map Text (mock_values languageCode) \<and>
      map (\<lambda>kv. language (snd kv)) props = [languageCode, languageCode, languageCode, languageCode, languageCode,
         languageCode, languageCode]"
    using mockResponse_props by blast
  moreover have "api_status (mockResponse screenLocation languageCode) = ''success''"
    "screen_location (mockResponse screenLocation languageCode) = screenLocation"
    "language_code (mockResponse screenLocation languageCode) = languageCode"
    "content_count (mockResponse screenLocation languageCode) = 7"
    by (simp_all add: mockResponse_def)
  ultimately show ?thesis
    by (simp add: isPlaceholderUrl_def getContentByScreen_def succeed_def)
qed

theorem placeholder_guard_witness:
  "isPlaceholderUrl development_config ''http://localhost:3001'' \<and>
   \<not> isPlaceholderUrl (development_config\<lparr>USE_REAL_CONTENT_DATA := True\<rparr>) ''http://localhost:3001'' \<and>
   result (getContentByScreen development_config no_network 0 0 [] ''main_page'' ''he'') =
     Some \<lparr>success = True, data = Some (mockResponse ''main_page'' ''he''), error = None, message = None\<rparr> \<and>
   sent (getContentByScreen development_config no_network 0 0 [] ''main_page'' ''he'') = []"
proof -
  have b: "API_BASE_URL development_config = ''http://localhost:3001''"
    by (simp add: development_config_def)
  have r: "USE_REAL_CONTENT_DATA (development_config\<lparr>USE_REAL_CONTENT_DATA := True\<rparr>)"
    by simp
  have m: "isPlaceholderUrl development_config (API_BASE_URL development_config) \<and>
      getContentByScreen development_config no_network 0 0 [] ''main_page'' ''he'' =
        \<lparr>result = Some \<lparr>success = True, data = Some (mockResponse ''main_page'' ''he''),
                         error = None, message = None\<rparr>,
         cache_after = [], console = [Log_placeholder_mock], sent = []\<rparr>"
    using placeholder_guard [of development_config "''http://localhost:3001''" no_network 0 0 "[]"
        "''main_page''" "''he''"] development_is_placeholder
    by blast
  have n: "\<not> isPlaceholderUrl (development_config\<lparr>USE_REAL_CONTENT_DATA := True\<rparr>)
             ''http://localhost:3001''"
    using placeholder_guard [of "development_config\<lparr>USE_REAL_CONTENT_DATA := True\<rparr>"
        "''http://localhost:3001''" no_network 0 0 "[]" "''main_page''" "''he''"] r
    by blast
  show ?thesis
    using m n by (simp add: b)
qed

end
